theory Spec2Isabelle
  imports Main "HOL-Library.Sublist" "HOL-Library.AList"
begin

section \<open>Strings\<close>

text \<open>
  A JavaScript string is a sequence of UTF-16 code units. The model uses \<^typ>\<open>string\<close>
  and reads every \<^typ>\<open>char\<close> as one code unit below 256, which is what a header value
  (a byte string) holds and enough for the markers the worker looks for. In that range the
  line terminators of the regular-expression dot are LF and CR, and the white space of
  \<open>String.prototype.trim\<close> and \<open>parseInt\<close> is TAB, LF, VT, FF, CR, SPACE and NBSP.
\<close>

definition isLineTerminator :: "char \<Rightarrow> bool" where
  "isLineTerminator c = (c = CHR ''\<newline>'' \<or> c = CHR 0x0D)"

definition isWhiteSpace :: "char \<Rightarrow> bool" where
  "isWhiteSpace c =
     (c = CHR 0x09 \<or> c = CHR ''\<newline>'' \<or> c = CHR 0x0B \<or> c = CHR 0x0C \<or> c = CHR 0x0D
      \<or> c = CHR '' '' \<or> c = CHR 0xA0)"

text \<open>\<open>s.trim()\<close>: white space and line terminators removed from both ends.\<close>

definition trim :: "string \<Rightarrow> string" where
  "trim s = rev (dropWhile isWhiteSpace (rev (dropWhile isWhiteSpace s)))"

text \<open>A literal piece of a regular expression: the input must start with it.\<close>

definition literal :: "string \<Rightarrow> string \<Rightarrow> string option" where
  "literal l s = (if prefix l s then Some (drop (length l) s) else None)"

section \<open>Suggestion extraction: \<open>parseSuggestionsFromComment\<close>\<close>

record CodeSuggestion =
  filePath :: string
  diff :: string

text \<open>
  The source scans the comment with the global regular expression
  \<^verbatim>\<open>/```diff\n--- a\/(.+?)\n\+\+\+ b\/.+?\n([\s\S]+?)```/g\<close>.
  Its pieces, in order:
  \<^item> the literal \<open>blockOpener\<close>;
  \<^item> \<^verbatim>\<open>(.+?)\n\<close>: one or more characters that are not line terminators, then LF. The dot
    cannot match the LF, so the lazy group is the whole rest of the line (\<open>restOfLine\<close>);
  \<^item> the literal \<open>plusHeader\<close>, and \<^verbatim>\<open>.+?\n\<close>, again the rest of a line;
  \<^item> \<^verbatim>\<open>([\s\S]+?)```\<close>: at least one character of any kind, then lazily up to the first
    run of three backticks after it (\<open>bodyUntilFence\<close>).
  No piece leaves a choice, so a match at a position is a function of the text there.
\<close>

definition fence :: string where
  "fence = ''```''"

definition blockOpener :: string where
  "blockOpener = ''```diff\<newline>--- a/''"

definition plusHeader :: string where
  "plusHeader = ''+++ b/''"

definition restOfLine :: "string \<Rightarrow> (string \<times> string) option" where
  "restOfLine s =
     (let g = takeWhile (\<lambda>c. \<not> isLineTerminator c) s;
          r = dropWhile (\<lambda>c. \<not> isLineTerminator c) s
      in if g = [] then None
         else (case r of
                 [] \<Rightarrow> None
               | n # r' \<Rightarrow> if n = CHR ''\<newline>'' then Some (g, r') else None))"

fun untilFence :: "string \<Rightarrow> (string \<times> string) option" where
  "untilFence [] = None"
| "untilFence (c # cs) =
     (if prefix fence (c # cs) then Some ([], drop (length fence) (c # cs))
      else (case untilFence cs of
              None \<Rightarrow> None
            | Some (b, r) \<Rightarrow> Some (c # b, r)))"

definition bodyUntilFence :: "string \<Rightarrow> (string \<times> string) option" where
  "bodyUntilFence s =
     (case s of
        [] \<Rightarrow> None
      | c # cs \<Rightarrow> (case untilFence cs of
                    None \<Rightarrow> None
                  | Some (b, r) \<Rightarrow> Some (c # b, r)))"

text \<open>
  A match that starts at the head of the text: capture group 1, capture group 2 and the
  text after the match (where the next search starts).
\<close>

definition matchAt :: "string \<Rightarrow> (string \<times> string \<times> string) option" where
  "matchAt s =
     (case literal blockOpener s of
        None \<Rightarrow> None
      | Some s1 \<Rightarrow>
          (case restOfLine s1 of
             None \<Rightarrow> None
           | Some (g1, s2) \<Rightarrow>
               (case literal plusHeader s2 of
                  None \<Rightarrow> None
                | Some s3 \<Rightarrow>
                    (case restOfLine s3 of
                       None \<Rightarrow> None
                     | Some (h, s4) \<Rightarrow>
                         (case bodyUntilFence s4 of
                            None \<Rightarrow> None
                          | Some (g2, rest) \<Rightarrow> Some (g1, g2, rest))))))"

text \<open>\<open>codeBlockRegex.exec\<close> from the current \<open>lastIndex\<close>: the leftmost match.\<close>

fun codeBlockRegexExec :: "string \<Rightarrow> (string \<times> string \<times> string) option" where
  "codeBlockRegexExec [] = None"
| "codeBlockRegexExec (c # cs) =
     (case matchAt (c # cs) of
        Some m \<Rightarrow> Some m
      | None \<Rightarrow> codeBlockRegexExec cs)"

lemma literal_Some: "literal l s = Some r \<longleftrightarrow> s = l @ r"
  by (auto simp: literal_def prefix_def)

lemma restOfLine_Some:
  "restOfLine s = Some (g, r) \<Longrightarrow> s = g @ CHR ''\<newline>'' # r \<and> g \<noteq> []"
proof -
  assume a: "restOfLine s = Some (g, r)"
  let ?P = "\<lambda>c. \<not> isLineTerminator c"
  from a have g: "g = takeWhile ?P s" and gne: "g \<noteq> []"
    and d: "dropWhile ?P s = CHR ''\<newline>'' # r"
    by (auto simp: restOfLine_def Let_def split: if_splits list.splits)
  have "s = takeWhile ?P s @ dropWhile ?P s" by simp
  with g d gne show ?thesis by simp
qed

lemma untilFence_Some: "untilFence s = Some (b, r) \<Longrightarrow> s = b @ fence @ r"
proof (induction s arbitrary: b)
  case Nil
  then show ?case by simp
next
  case (Cons c cs)
  show ?case
  proof (cases "prefix fence (c # cs)")
    case True
    with Cons.prems have "b = []" and "r = drop (length fence) (c # cs)" by auto
    moreover from True obtain t where "c # cs = fence @ t" by (auto simp: prefix_def)
    ultimately show ?thesis by simp
  next
    case False
    with Cons.prems obtain b' where u: "untilFence cs = Some (b', r)" and b: "b = c # b'"
      by (auto split: option.splits)
    from Cons.IH [OF u] b show ?thesis by simp
  qed
qed

lemma bodyUntilFence_Some:
  "bodyUntilFence s = Some (g, r) \<Longrightarrow> s = g @ fence @ r \<and> g \<noteq> []"
  by (auto simp: bodyUntilFence_def split: list.splits option.splits dest: untilFence_Some)

lemma matchAt_Some:
  assumes "matchAt s = Some (g1, g2, r)"
  shows "\<exists>h. s = blockOpener @ g1 @ CHR ''\<newline>'' # plusHeader @ h @ CHR ''\<newline>'' # g2 @ fence @ r"
proof -
  from assms obtain s1 s2 s3 h s4 where
    1: "literal blockOpener s = Some s1" and 2: "restOfLine s1 = Some (g1, s2)" and
    3: "literal plusHeader s2 = Some s3" and 4: "restOfLine s3 = Some (h, s4)" and
    5: "bodyUntilFence s4 = Some (g2, r)"
    by (auto simp: matchAt_def split: option.splits)
  from 1 have "s = blockOpener @ s1" by (simp add: literal_Some)
  moreover from 2 have "s1 = g1 @ CHR ''\<newline>'' # s2" by (simp add: restOfLine_Some)
  moreover from 3 have "s2 = plusHeader @ s3" by (simp add: literal_Some)
  moreover from 4 have "s3 = h @ CHR ''\<newline>'' # s4" by (simp add: restOfLine_Some)
  moreover from 5 have "s4 = g2 @ fence @ r" by (simp add: bodyUntilFence_Some)
  ultimately show ?thesis by simp
qed

lemma matchAt_shorter: "matchAt s = Some (g1, g2, r) \<Longrightarrow> length r < length s"
  by (drule matchAt_Some) (auto simp: fence_def)

lemma codeBlockRegexExec_shorter:
  "codeBlockRegexExec s = Some (g1, g2, r) \<Longrightarrow> length r < length s"
proof (induction s)
  case Nil
  then show ?case by simp
next
  case (Cons c cs)
  show ?case
  proof (cases "matchAt (c # cs)")
    case None
    with Cons show ?thesis by simp
  next
    case (Some m)
    with Cons.prems have "matchAt (c # cs) = Some (g1, g2, r)" by simp
    then show ?thesis by (rule matchAt_shorter)
  qed
qed

text \<open>
  The \<open>while\<close> loop of the source: each match is trimmed into a path and a diff, pushed
  when both are non-empty (a JavaScript string is truthy when it is not empty), and the
  search goes on after the match. A match is never empty, so the loop ends.
\<close>

function parseLoop :: "string \<Rightarrow> CodeSuggestion list" where
  "parseLoop s =
     (case codeBlockRegexExec s of
        None \<Rightarrow> []
      | Some (g1, g2, rest) \<Rightarrow>
          (if trim g1 \<noteq> [] \<and> trim g2 \<noteq> []
           then \<lparr>filePath = trim g1, diff = trim g2\<rparr> # parseLoop rest
           else parseLoop rest))"
  by pat_completeness auto
termination
  by (relation "measure length") (auto dest: codeBlockRegexExec_shorter)

declare parseLoop.simps [simp del]

definition parseSuggestionsFromComment :: "string \<Rightarrow> CodeSuggestion list" where
  "parseSuggestionsFromComment commentBody = parseLoop commentBody"

subsection \<open>Comments made of blocks\<close>

text \<open>
  The claims speak of fenced diff-tagged blocks. \<open>diffBlock p body\<close> is such a block as
  the specification writes it: the fence with the tag, the header lines \<open>--- a/p\<close> and
  \<open>+++ b/p\<close>, the body and the closing fence. \<open>occursIn pat s\<close> says that \<open>pat\<close>
  occurs in \<open>s\<close>; a text in which \<open>diffTag\<close> does not occur holds no diff-tagged
  block. \<open>fenceFree b\<close> says that no run of three backticks begins inside \<open>b\<close>, also
  when a fence follows \<open>b\<close> directly, so the fence after a body is the block's end.
\<close>

fun occursIn :: "string \<Rightarrow> string \<Rightarrow> bool" where
  "occursIn pat [] = (pat = [])"
| "occursIn pat (c # cs) = (prefix pat (c # cs) \<or> occursIn pat cs)"

definition diffTag :: string where
  "diffTag = ''```diff''"

definition fenceFree :: "string \<Rightarrow> bool" where
  "fenceFree b = (\<not> occursIn fence (b @ ''``''))"

definition diffBlock :: "string \<Rightarrow> string \<Rightarrow> string" where
  "diffBlock p body =
     ''```diff\<newline>--- a/'' @ p @ ''\<newline>+++ b/'' @ p @ ''\<newline>'' @ body @ ''```''"

text \<open>
  A comment of several blocks: each block with the text before it, then the text after
  the last block.
\<close>

fun renderBlocks :: "(string \<times> string \<times> string) list \<Rightarrow> string \<Rightarrow> string" where
  "renderBlocks [] post = post"
| "renderBlocks ((pre, p, body) # blocks) post = pre @ diffBlock p body @ renderBlocks blocks post"

definition wellFormedBlock :: "string \<times> string \<times> string \<Rightarrow> bool" where
  "wellFormedBlock b =
     (case b of
        (pre, p, body) \<Rightarrow>
          \<not> occursIn diffTag pre \<and> \<not> list_ex isLineTerminator p \<and> trim p \<noteq> []
          \<and> trim body \<noteq> [] \<and> fenceFree body)"

text \<open>
  \<open>s.split(sep)\<close> for a one-character separator (the source splits the signature header
  at \<open>=\<close>; the specification's lines are the pieces between line feeds).
\<close>

fun split :: "char \<Rightarrow> string \<Rightarrow> string list" where
  "split sep [] = [[]]"
| "split sep (c # cs) =
     (if c = sep then [] # split sep cs
      else (case split sep cs of
              [] \<Rightarrow> [[c]]
            | x # xs \<Rightarrow> (c # x) # xs))"

text \<open>
  Following the specification's words for the diff body (``every remaining line of the
  block trimmed of leading/trailing blank lines''): the lines of the body, without the
  blank lines at its start and at its end. It is what the source is compared with, not
  part of it.
\<close>

definition isBlankLine :: "string \<Rightarrow> bool" where
  "isBlankLine l = list_all isWhiteSpace l"

fun joinLines :: "string list \<Rightarrow> string" where
  "joinLines [] = []"
| "joinLines [l] = l"
| "joinLines (l # ls) = l @ CHR ''\<newline>'' # joinLines ls"

definition trimOuterBlankLines :: "string \<Rightarrow> string" where
  "trimOuterBlankLines s =
     joinLines (rev (dropWhile isBlankLine (rev (dropWhile isBlankLine (split CHR ''\<newline>'' s)))))"

section \<open>The hosting platform and the libraries\<close>

text \<open>
  A call of the platform's API returns or throws. The worker reads a thrown value only
  through its \<open>status\<close> field; \<open>TypeError\<close> is what the runtime throws when a method is
  called on \<open>undefined\<close> or \<open>null\<close>.
\<close>

datatype jsError = TypeError | RequestError nat | OtherError

fun status :: "jsError \<Rightarrow> nat option" where
  "status (RequestError n) = Some n"
| "status TypeError = None"
| "status OtherError = None"

record Repo =
  repo_owner :: string
  repo_name :: string
  repo_full_name :: string

text \<open>The fields of a pull request the worker reads; \<open>mergeable\<close> is \<open>null\<close> while unknown.\<close>

record PullRequest =
  pr_number :: nat
  pr_head_ref :: string
  pr_head_sha :: string
  pr_base_ref :: string
  pr_merged :: bool
  pr_mergeable :: "bool option"

text \<open>The answer of \<open>repos.getContent\<close>: it has a \<open>content\<close> field (a file) or has none.\<close>

datatype ContentResponse = FileContent string | NoContentField

record MergeResult =
  mr_merged :: bool
  mr_message :: string

record RepoConfig =
  automatic_pr_processing :: bool
  ai_model :: "string option"
  custom_prompts :: "(string \<times> string) list option"
  ignored_files :: "string list option"
  bot_username :: "string option"
  primary_branch :: "string option"

record Env =
  GITHUB_OWNER :: string
  GITHUB_TOKEN :: string
  WEBHOOK_SECRET :: string
  WORKER_URL :: string
  BOT_EMAIL :: "string option"
  BOT_USERNAME :: "string option"

text \<open>An entry of the tree that \<open>git.createTree\<close> receives: path, sha, mode and type.\<close>

datatype TreeEntry = TreeEntry string string string string

text \<open>
  The calls the worker makes, with their arguments in the order of the source: owner and
  repository first.
\<close>

datatype Request =
    ReposGetContent string string string "string option"
  | GitGetCommit string string string
  | GitCreateBlob string string string string
  | GitCreateTree string string string "TreeEntry list"
  | GitCreateCommit string string string string "string list" string string
  | GitUpdateRef string string string string
  | PullsGet string string nat
  | PullsMerge string string nat string
  | ReposMerge string string string string string
  | ReposCreateOrUpdateFileContents string string string string string string string

datatype Response =
    Threw jsError
  | GotContent ContentResponse
  | GotSha string
  | GotPull PullRequest
  | GotMerge MergeResult
  | GotNothing

text \<open>What the worker writes to the console, one constructor for each message.\<close>

datatype Console =
    AttemptingToApply nat string
  | CouldNotGetContent string
  | FailedToApplyPatch string
  | AppliedPatch string
  | ErrorApplyingSuggestion string jsError
  | NoSuggestionsApplied
  | CreatedCommit string string
  | ErrorCreatingCommit jsError
  | ReadyForMerge nat nat
  | NotReadyYet nat nat
  | ErrorCheckingStatus nat jsError
  | StillNotReady nat
  | AttemptingToMerge nat
  | AlreadyMerged nat
  | NotMergeable nat "bool option"
  | FailedToMerge nat string
  | MergedPullRequest nat
  | Integrating string string
  | Integrated string string
  | IntegrationFailed string string jsError
  | ErrorMerging nat jsError
  | ConfigExists
  | ErrorCheckingConfig jsError
  | ConfigNotFoundCreating
  | ConfigCreated
  | ErrorCreatingConfig jsError

text \<open>
  What a run does, in order: a call with the answer it got, a console message, or a
  suspension of so many milliseconds.
\<close>

datatype Event = Call Request Response | Log Console | Sleep nat

text \<open>
  The platform changes between two calls without the worker's doing (the branch head
  moves, mergeability gets computed), so every call takes the state of the world and
  returns the next one with its answer. The type of the world is a parameter.
\<close>

record 'w Octokit =
  repos_getContent ::
    "'w \<Rightarrow> string \<Rightarrow> string \<Rightarrow> string \<Rightarrow> string option \<Rightarrow> (jsError + ContentResponse) \<times> 'w"
  git_getCommit :: "'w \<Rightarrow> string \<Rightarrow> string \<Rightarrow> string \<Rightarrow> (jsError + string) \<times> 'w"
  git_createBlob :: "'w \<Rightarrow> string \<Rightarrow> string \<Rightarrow> string \<Rightarrow> string \<Rightarrow> (jsError + string) \<times> 'w"
  git_createTree ::
    "'w \<Rightarrow> string \<Rightarrow> string \<Rightarrow> string \<Rightarrow> TreeEntry list \<Rightarrow> (jsError + string) \<times> 'w"
  git_createCommit ::
    "'w \<Rightarrow> string \<Rightarrow> string \<Rightarrow> string \<Rightarrow> string \<Rightarrow> string list \<Rightarrow> string \<Rightarrow> string
       \<Rightarrow> (jsError + string) \<times> 'w"
  git_updateRef :: "'w \<Rightarrow> string \<Rightarrow> string \<Rightarrow> string \<Rightarrow> string \<Rightarrow> (jsError + unit) \<times> 'w"
  pulls_get :: "'w \<Rightarrow> string \<Rightarrow> string \<Rightarrow> nat \<Rightarrow> (jsError + PullRequest) \<times> 'w"
  pulls_merge :: "'w \<Rightarrow> string \<Rightarrow> string \<Rightarrow> nat \<Rightarrow> string \<Rightarrow> (jsError + MergeResult) \<times> 'w"
  repos_merge ::
    "'w \<Rightarrow> string \<Rightarrow> string \<Rightarrow> string \<Rightarrow> string \<Rightarrow> string \<Rightarrow> (jsError + unit) \<times> 'w"
  repos_createOrUpdateFileContents ::
    "'w \<Rightarrow> string \<Rightarrow> string \<Rightarrow> string \<Rightarrow> string \<Rightarrow> string \<Rightarrow> string \<Rightarrow> string
       \<Rightarrow> (jsError + unit) \<times> 'w"

text \<open>
  The library functions: \<open>atob\<close> and \<open>btoa\<close> of the runtime and \<open>applyPatch\<close> of the
  \<open>diff\<close> package, which returns the patched text, or \<open>false\<close> (here \<open>None\<close>) when the
  patch does not apply, or throws on a patch it cannot read. They are outside the
  repository and are parameters.
\<close>

record Lib =
  atob :: "string \<Rightarrow> jsError + string"
  btoa :: "string \<Rightarrow> string"
  applyPatch :: "string \<Rightarrow> string \<Rightarrow> jsError + string option"

fun threwOr :: "('a \<Rightarrow> Response) \<Rightarrow> jsError + 'a \<Rightarrow> Response" where
  "threwOr f (Inl e) = Threw e"
| "threwOr f (Inr x) = f x"

text \<open>\<open>a || b\<close> on an optional string: \<open>undefined\<close> and the empty string are falsy.\<close>

fun orElse :: "string option \<Rightarrow> string \<Rightarrow> string" where
  "orElse None d = d"
| "orElse (Some s) d = (if s = [] then d else s)"

text \<open>A number in a template string: its decimal digits.\<close>

definition digitChar :: "nat \<Rightarrow> char" where
  "digitChar d = ''0123456789'' ! d"

fun showNat :: "nat \<Rightarrow> string" where
  "showNat n = (if n < 10 then [digitChar n] else showNat (n div 10) @ [digitChar (n mod 10)])"

declare showNat.simps [simp del]

section \<open>The readiness poller: \<open>waitForPullRequestReady\<close>\<close>

definition maxAttempts :: nat where
  "maxAttempts = 12"

text \<open>
  The \<open>for\<close> loop from \<open>attempt\<close> on. The body is inside \<open>try\<close>: a throwing fetch is
  logged and, like an unready answer, followed by a suspension of 5000 ms when attempts
  remain. \<open>return\<close> inside the loop ends the function; after the loop comes the warning.
\<close>

function waitLoop ::
  "'w Octokit \<Rightarrow> Repo \<Rightarrow> nat \<Rightarrow> string \<Rightarrow> nat \<Rightarrow> 'w \<Rightarrow> 'w \<times> Event list" where
  "waitLoop octokit repo prNumber expectedSha attempt w =
     (if attempt \<le> maxAttempts then
        (case pulls_get octokit w (repo_owner repo) (repo_name repo) prNumber of
           (Inr pr, w1) \<Rightarrow>
             if pr_head_sha pr = expectedSha \<and> pr_mergeable pr \<noteq> None
             then (w1, [Call (PullsGet (repo_owner repo) (repo_name repo) prNumber) (GotPull pr),
                        Log (ReadyForMerge prNumber attempt)])
             else
               (let (w2, t) = waitLoop octokit repo prNumber expectedSha (attempt + 1) w1
                in (w2, Call (PullsGet (repo_owner repo) (repo_name repo) prNumber) (GotPull pr)
                        # (if attempt < maxAttempts
                           then [Log (NotReadyYet prNumber attempt), Sleep 5000] else [])
                        @ t))
         | (Inl err, w1) \<Rightarrow>
             (let (w2, t) = waitLoop octokit repo prNumber expectedSha (attempt + 1) w1
              in (w2, Call (PullsGet (repo_owner repo) (repo_name repo) prNumber) (Threw err)
                      # Log (ErrorCheckingStatus attempt err)
                      # (if attempt < maxAttempts then [Sleep 5000] else [])
                      @ t)))
      else (w, [Log (StillNotReady prNumber)]))"
  by pat_completeness auto
termination
  by (relation "measure (\<lambda>(octokit, repo, prNumber, expectedSha, attempt, w). maxAttempts + 1 - attempt)")
    auto

declare waitLoop.simps [simp del]

definition waitForPullRequestReady ::
  "'w Octokit \<Rightarrow> Repo \<Rightarrow> nat \<Rightarrow> string \<Rightarrow> 'w \<Rightarrow> 'w \<times> Event list" where
  "waitForPullRequestReady octokit repo prNumber expectedSha w =
     waitLoop octokit repo prNumber expectedSha 1 w"

section \<open>The merge orchestrator: \<open>mergePullRequest\<close>\<close>

definition mergePullRequest ::
  "'w Octokit \<Rightarrow> Repo \<Rightarrow> nat \<Rightarrow> RepoConfig \<Rightarrow> 'w \<Rightarrow> 'w \<times> Event list" where
  "mergePullRequest octokit repo prNumber config w =
     (let owner = repo_owner repo; repoName = repo_name repo;
          start = Log (AttemptingToMerge prNumber)
      in case pulls_get octokit w owner repoName prNumber of
           (Inl err, w1) \<Rightarrow>
             (w1, [start, Call (PullsGet owner repoName prNumber) (Threw err),
                   Log (ErrorMerging prNumber err)])
         | (Inr pr, w1) \<Rightarrow>
             (let fetched = [start, Call (PullsGet owner repoName prNumber) (GotPull pr)]
              in if pr_merged pr then (w1, fetched @ [Log (AlreadyMerged prNumber)])
                 else if pr_mergeable pr \<noteq> Some True
                 then (w1, fetched @ [Log (NotMergeable prNumber (pr_mergeable pr))])
                 else
                   (case pulls_merge octokit w1 owner repoName prNumber ''squash'' of
                      (Inl err, w2) \<Rightarrow>
                        (w2, fetched
                             @ [Call (PullsMerge owner repoName prNumber ''squash'') (Threw err),
                                Log (ErrorMerging prNumber err)])
                    | (Inr mergeResult, w2) \<Rightarrow>
                        (let merged = fetched
                               @ [Call (PullsMerge owner repoName prNumber ''squash'')
                                    (GotMerge mergeResult)]
                         in if \<not> mr_merged mergeResult
                            then (w2, merged
                                      @ [Log (FailedToMerge prNumber (mr_message mergeResult))])
                            else
                              (let targetBranch = pr_base_ref pr;
                                   primaryBranch = orElse (primary_branch config) ''main'';
                                   message = ''Merge branch '' @ [CHR 0x27] @ targetBranch
                                     @ [CHR 0x27] @ '' into '' @ primaryBranch
                               in if targetBranch \<noteq> primaryBranch
                                  then
                                    (case repos_merge octokit w2 owner repoName primaryBranch
                                            targetBranch message of
                                       (Inl integrationError, w3) \<Rightarrow>
                                         (w3, merged
                                              @ [Log (MergedPullRequest prNumber),
                                                 Log (Integrating targetBranch primaryBranch),
                                                 Call (ReposMerge owner repoName primaryBranch
                                                         targetBranch message)
                                                   (Threw integrationError),
                                                 Log (IntegrationFailed targetBranch primaryBranch
                                                        integrationError)])
                                     | (Inr u, w3) \<Rightarrow>
                                         (w3, merged
                                              @ [Log (MergedPullRequest prNumber),
                                                 Log (Integrating targetBranch primaryBranch),
                                                 Call (ReposMerge owner repoName primaryBranch
                                                         targetBranch message) GotNothing,
                                                 Log (Integrated targetBranch primaryBranch)]))
                                  else (w2, merged @ [Log (MergedPullRequest prNumber)]))))))"

section \<open>The commit builder: \<open>applySuggestions\<close>\<close>

text \<open>The patch handed to \<open>applyPatch\<close>: the two header lines and the diff.\<close>

definition patchText :: "CodeSuggestion \<Rightarrow> string" where
  "patchText suggestion =
     ''--- a/'' @ filePath suggestion @ ''\<newline>+++ b/'' @ filePath suggestion @ ''\<newline>''
     @ diff suggestion"

text \<open>
  The \<open>for\<close> loop over the suggestions. The change set is a JavaScript \<open>Map\<close>: keys in
  insertion order, \<open>set\<close> on a present key replaces its value in place, which is
  \<open>AList.update\<close> on an association list. The result is \<open>None\<close> when the function
  returns from inside the loop (the local map is dropped with it), and the change set
  when the loop runs to its end. \<open>continue\<close> goes on with the next suggestion.
\<close>

fun applyLoop ::
  "'w Octokit \<Rightarrow> Lib \<Rightarrow> Repo \<Rightarrow> string \<Rightarrow> CodeSuggestion list \<Rightarrow> (string \<times> string) list \<Rightarrow> 'w
     \<Rightarrow> (string \<times> string) list option \<times> 'w \<times> Event list" where
  "applyLoop octokit lib repo headSha [] changeSet w = (Some changeSet, w, [])"
| "applyLoop octokit lib repo headSha (suggestion # rest) changeSet w =
     (case repos_getContent octokit w (repo_owner repo) (repo_name repo) (filePath suggestion)
             (Some headSha) of
        (Inl err, w1) \<Rightarrow>
          (None, w1,
           [Call (ReposGetContent (repo_owner repo) (repo_name repo) (filePath suggestion)
                    (Some headSha)) (Threw err),
            Log (ErrorApplyingSuggestion (filePath suggestion) err)])
      | (Inr file, w1) \<Rightarrow>
          (let fetched = Call (ReposGetContent (repo_owner repo) (repo_name repo)
                                 (filePath suggestion) (Some headSha)) (GotContent file)
           in case file of
                NoContentField \<Rightarrow>
                  (case applyLoop octokit lib repo headSha rest changeSet w1 of
                     (r, w2, t) \<Rightarrow>
                       (r, w2, fetched # Log (CouldNotGetContent (filePath suggestion)) # t))
              | FileContent content \<Rightarrow>
                  (case atob lib content of
                     Inl err \<Rightarrow>
                       (None, w1,
                        [fetched, Log (ErrorApplyingSuggestion (filePath suggestion) err)])
                   | Inr originalContent \<Rightarrow>
                       (case applyPatch lib originalContent (patchText suggestion) of
                          Inl err \<Rightarrow>
                            (None, w1,
                             [fetched, Log (ErrorApplyingSuggestion (filePath suggestion) err)])
                        | Inr None \<Rightarrow>
                            (None, w1, [fetched, Log (FailedToApplyPatch (filePath suggestion))])
                        | Inr (Some newContent) \<Rightarrow>
                            (case applyLoop octokit lib repo headSha rest
                                    (AList.update (filePath suggestion) newContent changeSet)
                                    w1 of
                               (r, w2, t) \<Rightarrow>
                                 (r, w2,
                                  fetched # Log (AppliedPatch (filePath suggestion)) # t))))))"

text \<open>
  \<open>Promise.all\<close> over the entries of the change set: every \<open>createBlob\<close> call is issued,
  in the order of the map, before any answer is looked at; the whole throws when one of
  them threw.
\<close>

fun createBlobs ::
  "'w Octokit \<Rightarrow> Repo \<Rightarrow> (string \<times> string) list \<Rightarrow> 'w
     \<Rightarrow> (jsError + TreeEntry) list \<times> 'w \<times> Event list" where
  "createBlobs octokit repo [] w = ([], w, [])"
| "createBlobs octokit repo ((path, content) # rest) w =
     (case git_createBlob octokit w (repo_owner repo) (repo_name repo) content ''utf-8'' of
        (r, w1) \<Rightarrow>
          (case createBlobs octokit repo rest w1 of
             (rs, w2, t) \<Rightarrow>
               (map_sum id (\<lambda>sha. TreeEntry path sha ''100644'' ''blob'') r # rs, w2,
                Call (GitCreateBlob (repo_owner repo) (repo_name repo) content ''utf-8'')
                  (threwOr GotSha r) # t)))"

fun promiseAll :: "(jsError + 'a) list \<Rightarrow> jsError + 'a list" where
  "promiseAll [] = Inr []"
| "promiseAll (Inl err # rs) = Inl err"
| "promiseAll (Inr x # rs) =
     (case promiseAll rs of
        Inl err \<Rightarrow> Inl err
      | Inr xs \<Rightarrow> Inr (x # xs))"

definition commitMessage :: "PullRequest \<Rightarrow> string" where
  "commitMessage pr = ''feat: Apply code suggestions for PR #'' @ showNat (pr_number pr)"

text \<open>
  The second \<open>try\<close> block of \<open>applySuggestions\<close>: base tree, blobs, tree, commit, ref
  update, then the poller and the merge. A throwing call is caught, logged, and ends the
  function.
\<close>

definition commitChangeSet ::
  "'w Octokit \<Rightarrow> Env \<Rightarrow> RepoConfig \<Rightarrow> Repo \<Rightarrow> PullRequest \<Rightarrow> string \<Rightarrow> (string \<times> string) list
     \<Rightarrow> 'w \<Rightarrow> 'w \<times> Event list" where
  "commitChangeSet octokit env config repo pr headSha changeSet w =
     (let owner = repo_owner repo; repoName = repo_name repo
      in case git_getCommit octokit w owner repoName headSha of
           (Inl err, w1) \<Rightarrow>
             (w1, [Call (GitGetCommit owner repoName headSha) (Threw err),
                   Log (ErrorCreatingCommit err)])
         | (Inr baseTreeSha, w1) \<Rightarrow>
             (case createBlobs octokit repo changeSet w1 of
                (answers, w2, blobCalls) \<Rightarrow>
                  (let t2 = Call (GitGetCommit owner repoName headSha) (GotSha baseTreeSha)
                            # blobCalls
                   in case promiseAll answers of
                        Inl err \<Rightarrow> (w2, t2 @ [Log (ErrorCreatingCommit err)])
                      | Inr blobs \<Rightarrow>
                          (case git_createTree octokit w2 owner repoName baseTreeSha blobs of
                             (Inl err, w3) \<Rightarrow>
                               (w3, t2 @ [Call (GitCreateTree owner repoName baseTreeSha blobs)
                                            (Threw err),
                                          Log (ErrorCreatingCommit err)])
                           | (Inr newTreeSha, w3) \<Rightarrow>
                               (let t3 = t2 @ [Call (GitCreateTree owner repoName baseTreeSha blobs)
                                                 (GotSha newTreeSha)];
                                    botEmail = orElse (BOT_EMAIL env) ''bot@example.com'';
                                    createCommit = GitCreateCommit owner repoName
                                      (commitMessage pr) newTreeSha [headSha] ''GH-Worker-Bot''
                                      botEmail
                                in case git_createCommit octokit w3 owner repoName
                                          (commitMessage pr) newTreeSha [headSha]
                                          ''GH-Worker-Bot'' botEmail of
                                     (Inl err, w4) \<Rightarrow>
                                       (w4, t3 @ [Call createCommit (Threw err),
                                                  Log (ErrorCreatingCommit err)])
                                   | (Inr newCommitSha, w4) \<Rightarrow>
                                       (let t4 = t3 @ [Call createCommit (GotSha newCommitSha)];
                                            headsRef = ''heads/'' @ pr_head_ref pr
                                        in case git_updateRef octokit w4 owner repoName headsRef
                                                  newCommitSha of
                                             (Inl err, w5) \<Rightarrow>
                                               (w5, t4 @ [Call (GitUpdateRef owner repoName
                                                                  headsRef newCommitSha)
                                                            (Threw err),
                                                          Log (ErrorCreatingCommit err)])
                                           | (Inr u, w5) \<Rightarrow>
                                               (case waitForPullRequestReady octokit repo
                                                       (pr_number pr) newCommitSha w5 of
                                                  (w6, waited) \<Rightarrow>
                                                    (case mergePullRequest octokit repo
                                                            (pr_number pr) config w6 of
                                                       (w7, merged) \<Rightarrow>
                                                         (w7, t4
                                                              @ [Call (GitUpdateRef owner repoName
                                                                         headsRef newCommitSha)
                                                                   GotNothing,
                                                                 Log (CreatedCommit newCommitSha
                                                                        (pr_head_ref pr))]
                                                              @ waited @ merged)))))))))"

definition applySuggestions ::
  "'w Octokit \<Rightarrow> Lib \<Rightarrow> Env \<Rightarrow> RepoConfig \<Rightarrow> Repo \<Rightarrow> PullRequest \<Rightarrow> CodeSuggestion list \<Rightarrow> 'w
     \<Rightarrow> 'w \<times> Event list" where
  "applySuggestions octokit lib env config repo pr suggestions w =
     (let headSha = pr_head_sha pr;
          start = Log (AttemptingToApply (length suggestions) (pr_head_ref pr))
      in case applyLoop octokit lib repo headSha suggestions [] w of
           (None, w1, t1) \<Rightarrow> (w1, start # t1)
         | (Some changeSet, w1, t1) \<Rightarrow>
             if changeSet = [] then (w1, start # t1 @ [Log NoSuggestionsApplied])
             else (case commitChangeSet octokit env config repo pr headSha changeSet w1 of
                     (w2, t2) \<Rightarrow> (w2, start # t1 @ t2)))"

section \<open>The reconciliation of the policy file: \<open>ensureConfigFile\<close>\<close>

definition configPath :: string where
  "configPath = ''.github/worker-settings.json''"

text \<open>
  \<open>JSON.stringify(value, null, 2)\<close> on an object whose property values are booleans,
  strings, arrays of strings or objects of strings, which is what a \<open>RepoConfig\<close> can
  hold. An object is the list of its properties in the order it enumerates them; a
  property that is \<open>undefined\<close> is not in the list. A string is written in double
  quotes with the quote, the backslash and the control characters escaped; the members
  of an object or array stand on lines of their own, two more spaces in.
\<close>

datatype JsonValue =
    JBool bool
  | JString string
  | JStrings "string list"
  | JStringMap "(string \<times> string) list"

definition hexDigitLower :: "nat \<Rightarrow> char" where
  "hexDigitLower n = ''0123456789abcdef'' ! n"

definition escapeJsonChar :: "char \<Rightarrow> string" where
  "escapeJsonChar c =
     (if c = CHR 0x22 then [CHR 0x5C, CHR 0x22]
      else if c = CHR 0x5C then [CHR 0x5C, CHR 0x5C]
      else if c = CHR 0x08 then [CHR 0x5C, CHR ''b'']
      else if c = CHR 0x09 then [CHR 0x5C, CHR ''t'']
      else if c = CHR 0x0A then [CHR 0x5C, CHR ''n'']
      else if c = CHR 0x0C then [CHR 0x5C, CHR ''f'']
      else if c = CHR 0x0D then [CHR 0x5C, CHR ''r'']
      else if (of_char c :: nat) < 32
      then [CHR 0x5C, CHR ''u'', CHR ''0'', CHR ''0'', hexDigitLower (of_char c div 16),
            hexDigitLower (of_char c mod 16)]
      else [c])"

definition quoteJson :: "string \<Rightarrow> string" where
  "quoteJson s = CHR 0x22 # concat (map escapeJsonChar s) @ [CHR 0x22]"

fun joinWith :: "string \<Rightarrow> string list \<Rightarrow> string" where
  "joinWith sep [] = []"
| "joinWith sep [x] = x"
| "joinWith sep (x # y # ys) = x @ sep @ joinWith sep (y # ys)"

fun stringifyValue :: "JsonValue \<Rightarrow> string" where
  "stringifyValue (JBool b) = (if b then ''true'' else ''false'')"
| "stringifyValue (JString s) = quoteJson s"
| "stringifyValue (JStrings xs) =
     (if xs = [] then ''[]''
      else ''[\<newline>'' @ joinWith '',\<newline>'' (map (\<lambda>s. ''    '' @ quoteJson s) xs) @ ''\<newline>  ]'')"
| "stringifyValue (JStringMap kvs) =
     (if kvs = [] then ''{}''
      else ''{\<newline>''
           @ joinWith '',\<newline>'' (map (\<lambda>(k, s). ''    '' @ quoteJson k @ '': '' @ quoteJson s) kvs)
           @ ''\<newline>  }'')"

definition jsonStringify :: "(string \<times> JsonValue) list \<Rightarrow> string" where
  "jsonStringify props =
     (if props = [] then ''{}''
      else ''{\<newline>''
           @ joinWith '',\<newline>''
               (map (\<lambda>(k, v). ''  '' @ quoteJson k @ '': '' @ stringifyValue v) props)
           @ ''\<newline>}'')"

text \<open>
  The object literal of the source, \<open>{ automatic_pr_processing: false }\<close>: the optional
  properties of a \<open>RepoConfig\<close> are left out.
\<close>

definition defaultConfig :: "(string \<times> JsonValue) list" where
  "defaultConfig = [(''automatic_pr_processing'', JBool False)]"

definition ensureConfigFile ::
  "'w Octokit \<Rightarrow> Lib \<Rightarrow> string \<Rightarrow> string \<Rightarrow> Env \<Rightarrow> 'w \<Rightarrow> 'w \<times> Event list" where
  "ensureConfigFile octokit lib owner repo env w =
     (case repos_getContent octokit w owner repo configPath None of
        (Inr file, w1) \<Rightarrow>
          (w1, [Call (ReposGetContent owner repo configPath None) (GotContent file),
                Log ConfigExists])
      | (Inl error, w1) \<Rightarrow>
          (let read = Call (ReposGetContent owner repo configPath None) (Threw error)
           in if status error \<noteq> Some 404 then (w1, [read, Log (ErrorCheckingConfig error)])
              else
                (let botEmail = orElse (BOT_EMAIL env) ''bot@example.com'';
                     message = ''feat: Add worker configuration file'';
                     content = btoa lib (jsonStringify defaultConfig)
                 in case repos_createOrUpdateFileContents octokit w1 owner repo configPath
                           message content ''GH-Worker-Bot'' botEmail of
                      (Inl creationError, w2) \<Rightarrow>
                        (w2, [read, Log ConfigNotFoundCreating,
                              Call (ReposCreateOrUpdateFileContents owner repo configPath message
                                      content ''GH-Worker-Bot'' botEmail) (Threw creationError),
                              Log (ErrorCreatingConfig creationError)])
                    | (Inr u, w2) \<Rightarrow>
                        (w2, [read, Log ConfigNotFoundCreating,
                              Call (ReposCreateOrUpdateFileContents owner repo configPath message
                                      content ''GH-Worker-Bot'' botEmail) GotNothing,
                              Log ConfigCreated]))))"

section \<open>The signature verifier: \<open>verifySignature\<close>\<close>

text \<open>
  The Web Crypto functions are outside the repository and are parameters: \<open>importKey\<close>
  makes an HMAC-SHA-256 key of the secret or throws, \<open>hmacSha256\<close> is the keyed hash of
  the payload's bytes. \<open>crypto.subtle.verify\<close> for HMAC compares the given signature
  bytes with that hash.
\<close>

record 'k Crypto =
  importKey :: "string \<Rightarrow> jsError + 'k"
  hmacSha256 :: "'k \<Rightarrow> string \<Rightarrow> nat list"

definition subtleVerify :: "'k Crypto \<Rightarrow> 'k \<Rightarrow> nat list \<Rightarrow> string \<Rightarrow> bool" where
  "subtleVerify crypto key sigBytes dataBytes = (sigBytes = hmacSha256 crypto key dataBytes)"

definition isHexDigit :: "char \<Rightarrow> bool" where
  "isHexDigit c =
     (let n = (of_char c :: nat)
      in (48 \<le> n \<and> n \<le> 57) \<or> (97 \<le> n \<and> n \<le> 102) \<or> (65 \<le> n \<and> n \<le> 70))"

definition hexValue :: "char \<Rightarrow> nat" where
  "hexValue c =
     (let n = (of_char c :: nat)
      in if 48 \<le> n \<and> n \<le> 57 then n - 48
         else if 97 \<le> n \<and> n \<le> 102 then n - 87
         else n - 55)"

text \<open>\<open>xs[i]\<close>: \<open>undefined\<close> (here \<open>None\<close>) out of range.\<close>

definition element :: "'a list \<Rightarrow> nat \<Rightarrow> 'a option" where
  "element xs i = (if i < length xs then Some (xs ! i) else None)"

text \<open>
  \<open>s.match(/../g)\<close>: the matches from left to right, each two characters that are not line
  terminators; where no pair starts the search moves on by one character. The empty list
  stands for \<open>null\<close>, the result when nothing matches.
\<close>

fun matchPairs :: "string \<Rightarrow> string list" where
  "matchPairs (a # b # rest) =
     (if \<not> isLineTerminator a \<and> \<not> isLineTerminator b then [a, b] # matchPairs rest
      else matchPairs (b # rest))"
| "matchPairs s = []"

text \<open>
  \<open>parseInt(h, 16)\<close>: leading white space is skipped, then a sign, then a prefix \<open>0x\<close> or
  \<open>0X\<close>; the value is that of the longest run of hexadecimal digits that follows, and
  \<open>NaN\<close> (here \<open>None\<close>) when that run is empty.
\<close>

definition parseInt16 :: "string \<Rightarrow> int option" where
  "parseInt16 inputString =
     (let s0 = dropWhile isWhiteSpace inputString;
          sign = (if prefix ''-'' s0 then - 1 else 1);
          s1 = (if prefix ''+'' s0 \<or> prefix ''-'' s0 then drop 1 s0 else s0);
          s2 = (if prefix ''0x'' s1 \<or> prefix ''0X'' s1 then drop 2 s1 else s1);
          z = takeWhile isHexDigit s2
      in if z = [] then None
         else Some (sign * foldl (\<lambda>acc c. 16 * acc + int (hexValue c)) 0 z))"

text \<open>An element of a \<open>Uint8Array\<close>: \<open>NaN\<close> becomes 0, a number is taken modulo 256.\<close>

fun toUint8 :: "int option \<Rightarrow> nat" where
  "toUint8 None = 0"
| "toUint8 (Some i) = nat (i mod 256)"

text \<open>
  \<open>verifySignature\<close>. \<open>signature.split('=')[1]\<close> is \<open>undefined\<close> when the signature has
  no \<open>=\<close>, and \<open>match\<close> on it throws a \<open>TypeError\<close>; \<open>match\<close> gives \<open>null\<close> when the
  digest holds no pair, and \<open>map\<close> on it throws a \<open>TypeError\<close> (the \<open>!\<close> of the source
  is erased at compile time).
\<close>

definition verifySignature :: "'k Crypto \<Rightarrow> string \<Rightarrow> string \<Rightarrow> string \<Rightarrow> jsError + bool" where
  "verifySignature crypto secret signature payload =
     (case importKey crypto secret of
        Inl err \<Rightarrow> Inl err
      | Inr key \<Rightarrow>
          (case element (split CHR ''='' signature) 1 of
             None \<Rightarrow> Inl TypeError
           | Some sigHex \<Rightarrow>
               (case matchPairs sigHex of
                  [] \<Rightarrow> Inl TypeError
                | h # hs \<Rightarrow>
                    Inr (subtleVerify crypto key
                           (map (\<lambda>h. toUint8 (parseInt16 h)) (h # hs)) payload))))"

text \<open>
  Following the specification's words for a well-formed signature (``a signature string
  of the form \<open>algorithm=hexDigest\<close>''): \<open>hexBytes\<close> are the bytes a hexadecimal digest
  of even length denotes, two digits a byte. It is what the source is compared with.
\<close>

fun hexBytes :: "string \<Rightarrow> nat list" where
  "hexBytes (a # b # rest) = (16 * hexValue a + hexValue b) # hexBytes rest"
| "hexBytes s = []"

section \<open>Reading a run\<close>

text \<open>
  The claims speak of what a run did; these tests read it off the list of events.
  \<open>isReady\<close> is the test the poller makes on a fetched pull request.
\<close>

definition isReady :: "string \<Rightarrow> PullRequest \<Rightarrow> bool" where
  "isReady expectedSha pr = (pr_head_sha pr = expectedSha \<and> pr_mergeable pr \<noteq> None)"

fun isFetch :: "Event \<Rightarrow> bool" where
  "isFetch (Call (PullsGet owner repoName n) r) = True"
| "isFetch ev = False"

fun isSleep :: "Event \<Rightarrow> bool" where
  "isSleep (Sleep ms) = True"
| "isSleep ev = False"

text \<open>
  The fetches and suspensions of a run, in order, \<open>True\<close> for a fetch: they are well
  spaced when a suspension stands between every two fetches and a fetch comes last.
\<close>

definition fetchesAndSleeps :: "Event list \<Rightarrow> bool list" where
  "fetchesAndSleeps t = map isFetch (filter (\<lambda>ev. isFetch ev \<or> isSleep ev) t)"

fun spaced :: "bool list \<Rightarrow> bool" where
  "spaced [True] = True"
| "spaced (True # False # rest) = spaced rest"
| "spaced bs = False"

fun readyAnswer :: "string \<Rightarrow> Event \<Rightarrow> bool" where
  "readyAnswer expectedSha (Call (PullsGet owner repoName n) (GotPull pr)) = isReady expectedSha pr"
| "readyAnswer expectedSha ev = False"

text \<open>The calls that build a commit: blob, tree and commit creation, and the ref update.\<close>

fun isCommitCall :: "Event \<Rightarrow> bool" where
  "isCommitCall (Call (GitCreateBlob owner repoName content encoding) r) = True"
| "isCommitCall (Call (GitCreateTree owner repoName base entries) r) = True"
| "isCommitCall (Call (GitCreateCommit owner repoName message tree parents name email) r) = True"
| "isCommitCall (Call (GitUpdateRef owner repoName ref sha) r) = True"
| "isCommitCall ev = False"

text \<open>The calls that merge: the pull-request merge and the branch integration merge.\<close>

fun isMergeCall :: "Event \<Rightarrow> bool" where
  "isMergeCall (Call (PullsMerge owner repoName n method) r) = True"
| "isMergeCall (Call (ReposMerge owner repoName base head message) r) = True"
| "isMergeCall ev = False"

fun isCreateFile :: "Event \<Rightarrow> bool" where
  "isCreateFile (Call (ReposCreateOrUpdateFileContents owner repo path message content name email) r)
     = True"
| "isCreateFile ev = False"

text \<open>
  What can happen once the loop over the suggestions is over: no content fetch, no
  message of the loop, and a commit only on the given head.
\<close>

fun commitStepEvent :: "string \<Rightarrow> Event \<Rightarrow> bool" where
  "commitStepEvent headSha (Call (GitCreateCommit owner repoName message tree parents name email) r)
     = (parents = [headSha])"
| "commitStepEvent headSha (Call (ReposGetContent owner repoName path ref) r) = False"
| "commitStepEvent headSha (Log (CouldNotGetContent path)) = False"
| "commitStepEvent headSha (Log (FailedToApplyPatch path)) = False"
| "commitStepEvent headSha (Log (AppliedPatch path)) = False"
| "commitStepEvent headSha (Log (ErrorApplyingSuggestion path err)) = False"
| "commitStepEvent headSha ev = True"

section \<open>An example platform\<close>

text \<open>
  A platform to run the worker on. Its world is the number of pull-request fetches made
  so far: the first two fetches find the head not yet moved and mergeability unknown, the
  later ones find the head at the new commit and the pull request mergeable. Pull request
  8 is already merged. The path \<open>docs\<close> is a directory and \<open>gone.txt\<close> cannot be
  fetched; the policy file is absent in the repository \<open>fresh\<close> and unreadable in
  \<open>down\<close>. The example patch routine applies a patch to the text \<open>old\<close> when the
  patch ends in \<open>+new\<close>.
\<close>

definition demoRepo :: Repo where
  "demoRepo = \<lparr>repo_owner = ''acme'', repo_name = ''app'', repo_full_name = ''acme/app''\<rparr>"

definition demoPr :: PullRequest where
  "demoPr =
     \<lparr>pr_number = 7, pr_head_ref = ''feature'', pr_head_sha = ''h0'', pr_base_ref = ''develop'',
      pr_merged = False, pr_mergeable = None\<rparr>"

definition demoOctokit :: "nat Octokit" where
  "demoOctokit =
     \<lparr>repos_getContent = (\<lambda>w owner repo path ref.
        (if path = ''docs'' then Inr NoContentField
         else if path = ''gone.txt'' then Inl (RequestError 404)
         else if path = configPath \<and> repo = ''fresh'' then Inl (RequestError 404)
         else if path = configPath \<and> repo = ''down'' then Inl (RequestError 500)
         else Inr (FileContent ''old''), w)),
      git_getCommit = (\<lambda>w owner repo sha. (Inr ''tree0'', w)),
      git_createBlob = (\<lambda>w owner repo content encoding. (Inr (''blob:'' @ content), w)),
      git_createTree = (\<lambda>w owner repo base entries. (Inr ''tree1'', w)),
      git_createCommit = (\<lambda>w owner repo message tree parents name email. (Inr ''c1'', w)),
      git_updateRef = (\<lambda>w owner repo ref sha. (Inr (), w)),
      pulls_get = (\<lambda>w owner repo n.
        (Inr (demoPr\<lparr>pr_number := n,
                     pr_head_sha := (if w < 2 then ''h0'' else ''c1''),
                     pr_merged := (n = 8),
                     pr_mergeable := (if w < 2 then None else Some True)\<rparr>), Suc w)),
      pulls_merge = (\<lambda>w owner repo n method.
        (Inr \<lparr>mr_merged = True, mr_message = ''merged''\<rparr>, w)),
      repos_merge = (\<lambda>w owner repo base head message. (Inr (), w)),
      repos_createOrUpdateFileContents = (\<lambda>w owner repo path message content name email.
        (Inr (), w))\<rparr>"

definition demoLib :: Lib where
  "demoLib =
     \<lparr>atob = (\<lambda>s. Inr s),
      btoa = (\<lambda>s. s),
      applyPatch = (\<lambda>original patch.
        if original = ''old'' \<and> drop (length patch - 4) patch = ''+new''
        then Inr (Some ''new'') else Inr None)\<rparr>"

definition demoEnv :: Env where
  "demoEnv =
     \<lparr>GITHUB_OWNER = ''acme'', GITHUB_TOKEN = ''t'', WEBHOOK_SECRET = ''s'',
      WORKER_URL = ''https://worker.example'', BOT_EMAIL = None, BOT_USERNAME = None\<rparr>"

definition demoConfig :: RepoConfig where
  "demoConfig =
     \<lparr>automatic_pr_processing = True, ai_model = None, custom_prompts = None,
      ignored_files = None, bot_username = None, primary_branch = None\<rparr>"

text \<open>
  An example of the cryptographic functions: the key is the secret, an empty secret is
  refused, and the keyed hash is the bytes \<open>AB 00\<close> for the payload \<open>zero\<close>,
  \<open>AB 00 CD\<close> for the payload \<open>zero2\<close> and \<open>AB CD\<close> for every other payload.
\<close>

definition demoCrypto :: "string Crypto" where
  "demoCrypto =
     \<lparr>importKey = (\<lambda>secret. if secret = [] then Inl OtherError else Inr secret),
      hmacSha256 = (\<lambda>key payload.
        if payload = ''zero'' then [171, 0]
        else if payload = ''zero2'' then [171, 0, 205]
        else [171, 205])\<rparr>"

section \<open>The example platform, call by call\<close>

lemma demo_getContent:
  "repos_getContent demoOctokit w owner repo path ref =
     (if path = ''docs'' then Inr NoContentField
      else if path = ''gone.txt'' then Inl (RequestError 404)
      else if path = configPath \<and> repo = ''fresh'' then Inl (RequestError 404)
      else if path = configPath \<and> repo = ''down'' then Inl (RequestError 500)
      else Inr (FileContent ''old''), w)"
  by (simp add: demoOctokit_def)

lemma demo_getCommit: "git_getCommit demoOctokit w owner repo sha = (Inr ''tree0'', w)"
  by (simp add: demoOctokit_def)

lemma demo_createBlob:
  "git_createBlob demoOctokit w owner repo content encoding = (Inr (''blob:'' @ content), w)"
  by (simp add: demoOctokit_def)

lemma demo_createTree: "git_createTree demoOctokit w owner repo base entries = (Inr ''tree1'', w)"
  by (simp add: demoOctokit_def)

lemma demo_createCommit:
  "git_createCommit demoOctokit w owner repo message tree parents name email = (Inr ''c1'', w)"
  by (simp add: demoOctokit_def)

lemma demo_updateRef: "git_updateRef demoOctokit w owner repo ref sha = (Inr (), w)"
  by (simp add: demoOctokit_def)

lemma demo_pulls_get:
  "pulls_get demoOctokit w owner repo n =
     (Inr \<lparr>pr_number = n, pr_head_ref = ''feature'',
           pr_head_sha = (if w < 2 then ''h0'' else ''c1''), pr_base_ref = ''develop'',
           pr_merged = (n = 8), pr_mergeable = (if w < 2 then None else Some True)\<rparr>, Suc w)"
  by (simp add: demoOctokit_def demoPr_def)

lemma demo_pulls_merge:
  "pulls_merge demoOctokit w owner repo n method =
     (Inr \<lparr>mr_merged = True, mr_message = ''merged''\<rparr>, w)"
  by (simp add: demoOctokit_def)

lemma demo_repos_merge: "repos_merge demoOctokit w owner repo base head message = (Inr (), w)"
  by (simp add: demoOctokit_def)

lemma demo_createFile:
  "repos_createOrUpdateFileContents demoOctokit w owner repo path message content name email
     = (Inr (), w)"
  by (simp add: demoOctokit_def)

lemma demo_atob: "atob demoLib s = Inr s"
  by (simp add: demoLib_def)

lemma demo_btoa: "btoa demoLib s = s"
  by (simp add: demoLib_def)

lemma demo_applyPatch:
  "applyPatch demoLib original patch =
     (if original = ''old'' \<and> drop (length patch - 4) patch = ''+new''
      then Inr (Some ''new'') else Inr None)"
  by (simp add: demoLib_def)

lemmas demo_calls =
  demo_getContent demo_getCommit demo_createBlob demo_createTree demo_createCommit
  demo_updateRef demo_pulls_get demo_pulls_merge demo_repos_merge demo_createFile
  demo_atob demo_btoa demo_applyPatch

lemma showNat_7: "showNat 7 = ''7''"
  by (simp add: showNat.simps digitChar_def)

text \<open>The definitions a run on the example platform unfolds.\<close>

lemmas demo_run =
  applySuggestions_def commitChangeSet_def demo_calls demoRepo_def demoPr_def demoEnv_def
  demoConfig_def patchText_def commitMessage_def showNat_7 waitForPullRequestReady_def
  waitLoop.simps maxAttempts_def mergePullRequest_def Let_def configPath_def isReady_def

section \<open>Properties of the suggestion extraction\<close>

lemma trim_Nil: "trim [] = []"
  by (simp add: trim_def)

lemma straddle:
  "prefix diffTag (u @ diffTag @ m) \<Longrightarrow> u \<noteq> [] \<Longrightarrow> prefix diffTag u"
  unfolding diffTag_def
  by (auto simp: prefix_append Cons_eq_append_conv)

lemma restOfLine_line:
  "g \<noteq> [] \<Longrightarrow> \<forall>c\<in>set g. \<not> isLineTerminator c \<Longrightarrow>
   restOfLine (g @ CHR ''\<newline>'' # r) = Some (g, r)"
  by (simp add: restOfLine_def Let_def isLineTerminator_def)

lemma prefix_fence_short:
  "prefix fence (c # x @ fence @ y) \<Longrightarrow> prefix fence (c # x @ ''``'')"
  unfolding fence_def
  by (cases x; cases "tl x"; cases "tl (tl x)") auto

lemma untilFence_first:
  "\<not> occursIn fence (x @ ''``'') \<Longrightarrow> untilFence (x @ fence @ y) = Some (x, y)"
proof (induction x)
  case Nil
  then show ?case by (simp add: fence_def)
next
  case (Cons c x)
  from Cons.prems have np: "\<not> prefix fence (c # x @ ''``'')"
    and no: "\<not> occursIn fence (x @ ''``'')"
    by simp_all
  from np have "\<not> prefix fence (c # x @ fence @ y)" using prefix_fence_short by blast
  with Cons.IH [OF no] show ?case by simp
qed

lemma bodyUntilFence_body:
  assumes "body \<noteq> []" "fenceFree body"
  shows "bodyUntilFence (body @ fence @ y) = Some (body, y)"
proof -
  from assms(1) obtain c cs where b: "body = c # cs" by (cases body) auto
  with assms(2) have "\<not> occursIn fence (cs @ ''``'')" by (simp add: fenceFree_def)
  then have "untilFence (cs @ fence @ y) = Some (cs, y)" by (rule untilFence_first)
  with b show ?thesis by (simp add: bodyUntilFence_def)
qed

lemma matchAt_diffBlock:
  assumes "p \<noteq> []" "\<forall>c\<in>set p. \<not> isLineTerminator c" "body \<noteq> []" "fenceFree body"
  shows "matchAt (diffBlock p body @ post) = Some (p, body, post)"
proof -
  have 1: "literal blockOpener (diffBlock p body @ post)
      = Some (p @ CHR ''\<newline>'' # plusHeader @ p @ CHR ''\<newline>'' # body @ fence @ post)"
    by (simp add: literal_def diffBlock_def blockOpener_def plusHeader_def fence_def)
  have 2: "restOfLine (p @ CHR ''\<newline>'' # plusHeader @ p @ CHR ''\<newline>'' # body @ fence @ post)
      = Some (p, plusHeader @ p @ CHR ''\<newline>'' # body @ fence @ post)"
    using assms(1,2) by (rule restOfLine_line)
  have 3: "literal plusHeader (plusHeader @ p @ CHR ''\<newline>'' # body @ fence @ post)
      = Some (p @ CHR ''\<newline>'' # body @ fence @ post)"
    by (simp add: literal_def)
  have 4: "restOfLine (p @ CHR ''\<newline>'' # body @ fence @ post) = Some (p, body @ fence @ post)"
    using assms(1,2) by (rule restOfLine_line)
  have 5: "bodyUntilFence (body @ fence @ post) = Some (body, post)"
    using assms(3,4) by (rule bodyUntilFence_body)
  show ?thesis
    unfolding matchAt_def by (simp only: 1 2 3 4 5 option.case prod.case)
qed

lemma matchAt_needs_tag: "matchAt s = Some m \<Longrightarrow> prefix diffTag s"
  by (auto simp: matchAt_def literal_def blockOpener_def diffTag_def prefix_def
      split: option.splits if_splits)

lemma exec_none: "\<not> occursIn diffTag s \<Longrightarrow> codeBlockRegexExec s = None"
proof (induction s)
  case Nil
  then show ?case by simp
next
  case (Cons c cs)
  then have "\<not> prefix diffTag (c # cs)" and "\<not> occursIn diffTag cs" by simp_all
  with Cons.IH matchAt_needs_tag [of "c # cs"] show ?case
    by (cases "matchAt (c # cs)") auto
qed

lemma exec_skip:
  assumes "\<not> occursIn diffTag pre"
  shows "codeBlockRegexExec (pre @ diffTag @ m) = codeBlockRegexExec (diffTag @ m)"
  using assms
proof (induction pre)
  case Nil
  then show ?case by simp
next
  case (Cons c pre)
  then have np: "\<not> prefix diffTag (c # pre)" and no: "\<not> occursIn diffTag pre" by simp_all
  have "\<not> prefix diffTag ((c # pre) @ diffTag @ m)"
    using np straddle [of "c # pre" m] by blast
  then have "matchAt (c # pre @ diffTag @ m) = None"
    using matchAt_needs_tag [of "c # pre @ diffTag @ m"]
    by (cases "matchAt (c # pre @ diffTag @ m)") auto
  with Cons.IH [OF no] show ?case by simp
qed

lemma exec_diffBlock:
  assumes "\<not> occursIn diffTag pre" "p \<noteq> []" "\<forall>c\<in>set p. \<not> isLineTerminator c"
    "body \<noteq> []" "fenceFree body"
  shows "codeBlockRegexExec (pre @ diffBlock p body @ post) = Some (p, body, post)"
proof -
  obtain m where m: "diffBlock p body @ post = diffTag @ m"
    by (simp add: diffBlock_def diffTag_def)
  have "codeBlockRegexExec (pre @ diffTag @ m) = codeBlockRegexExec (diffTag @ m)"
    using assms(1) by (rule exec_skip)
  then have "codeBlockRegexExec (pre @ diffBlock p body @ post)
      = codeBlockRegexExec (diffBlock p body @ post)"
    by (simp only: m)
  moreover have "matchAt (diffBlock p body @ post) = Some (p, body, post)"
    using assms(2-5) by (rule matchAt_diffBlock)
  moreover obtain c cs where "diffBlock p body @ post = c # cs"
    by (simp add: diffBlock_def)
  ultimately show ?thesis by simp
qed

lemma parseLoop_rec:
  "codeBlockRegexExec s = Some (g1, g2, rest) \<Longrightarrow>
   parseLoop s = (if trim g1 \<noteq> [] \<and> trim g2 \<noteq> []
                  then \<lparr>filePath = trim g1, diff = trim g2\<rparr> # parseLoop rest
                  else parseLoop rest)"
  by (subst parseLoop.simps) simp

lemma parseLoop_done: "codeBlockRegexExec s = None \<Longrightarrow> parseLoop s = []"
  by (subst parseLoop.simps) simp

lemma parseLoop_nonempty:
  "e \<in> set (parseLoop s) \<Longrightarrow> filePath e \<noteq> [] \<and> diff e \<noteq> []"
proof (induction s rule: parseLoop.induct)
  case (1 s)
  show ?case
  proof (cases "codeBlockRegexExec s")
    case None
    with "1.prems" show ?thesis by (simp add: parseLoop_done)
  next
    case (Some m)
    then obtain g1 g2 rest where m: "codeBlockRegexExec s = Some (g1, g2, rest)"
      by (cases m) auto
    show ?thesis
    proof (cases "trim g1 \<noteq> [] \<and> trim g2 \<noteq> []")
      case True
      with "1.prems" m
      have "e = \<lparr>filePath = trim g1, diff = trim g2\<rparr> \<or> e \<in> set (parseLoop rest)"
        by (simp add: parseLoop_rec)
      then show ?thesis
      proof
        assume "e = \<lparr>filePath = trim g1, diff = trim g2\<rparr>"
        with True show ?thesis by simp
      next
        assume "e \<in> set (parseLoop rest)"
        with "1.IH"(1) [OF m refl refl True] show ?thesis by simp
      qed
    next
      case False
      with "1.prems" m have "e \<in> set (parseLoop rest)" by (simp add: parseLoop_rec)
      with "1.IH"(2) [OF m refl refl False] show ?thesis by simp
    qed
  qed
qed

text \<open>A body that holds no fence and does not end in a backtick is closed by its fence.\<close>

lemma occursIn_fence_end:
  "occursIn fence (b @ ''``'') \<Longrightarrow> occursIn fence b \<or> (b \<noteq> [] \<and> last b = CHR 0x60)"
proof (induction b)
  case Nil
  then show ?case by (simp add: fence_def)
next
  case (Cons c b)
  from Cons.prems have "prefix fence (c # b @ ''``'') \<or> occursIn fence (b @ ''``'')" by simp
  then show ?case
  proof
    assume p: "prefix fence (c # b @ ''``'')"
    show ?thesis
    proof (cases b)
      case Nil
      with p show ?thesis by (simp add: fence_def)
    next
      case b1: (Cons d b')
      show ?thesis
      proof (cases b')
        case Nil
        with p b1 show ?thesis by (auto simp: fence_def)
      next
        case (Cons e b'')
        with p b1 show ?thesis by (auto simp: fence_def)
      qed
    qed
  next
    assume "occursIn fence (b @ ''``'')"
    with Cons.IH show ?thesis by auto
  qed
qed

lemma fenceFree_natural:
  "\<not> occursIn fence b \<Longrightarrow> last b \<noteq> CHR 0x60 \<Longrightarrow> fenceFree b"
  unfolding fenceFree_def using occursIn_fence_end [of b] by blast

subsection \<open>One diff-tagged block (claim C4)\<close>

text \<open>
  Claim C4 as stated: for a comment with exactly one fenced diff-tagged block with the
  header lines \<open>--- a/p\<close> and \<open>+++ b/p\<close> and a non-empty body, the extraction returns one
  edit whose path is \<open>p\<close> trimmed and whose diff is the body with only its outer blank
  lines trimmed, the leading white space inside a line preserved. The source trims the
  body with \<open>trim()\<close>, which also removes the white space that starts the first line:
  for the body \<open>" x\n"\<close> (a context line of a unified diff starts with a space) the
  diff is \<open>"x"\<close>, while trimming outer blank lines leaves \<open>" x"\<close>.
\<close>

theorem parse_trims_first_line_counterexample:
  "parseSuggestionsFromComment (diffBlock ''f'' '' x\<newline>'')
     = [\<lparr>filePath = ''f'', diff = ''x''\<rparr>] \<and>
   trimOuterBlankLines '' x\<newline>'' = '' x'' \<and>
   parseSuggestionsFromComment (diffBlock ''f'' '' x\<newline>'')
     \<noteq> [\<lparr>filePath = ''f'', diff = trimOuterBlankLines '' x\<newline>''\<rparr>]"
  by code_simp

text \<open>
  Claim C4, amended: for a comment \<open>pre @ diffBlock p body @ post\<close> in which no diff tag
  occurs before or after the block, where \<open>p\<close> holds no line terminator and is not empty
  after trimming, and the body holds no fence, does not end in a backtick and is not empty
  after trimming, the extraction returns exactly one edit: its path is \<open>p\<close> trimmed and
  its diff is the body with the white space at its two ends removed (\<open>trim\<close>).
  Everything between the first and the last character that is not white space is kept as
  it is; the white space that starts the first line and ends the last line is removed
  with the outer blank lines.
\<close>

theorem parse_single_diff_block:
  assumes "\<not> occursIn diffTag pre" "\<not> occursIn diffTag post"
    "\<forall>c\<in>set p. \<not> isLineTerminator c" "trim p \<noteq> []" "trim body \<noteq> []"
    "\<not> occursIn fence body" "last body \<noteq> CHR 0x60"
  shows "parseSuggestionsFromComment (pre @ diffBlock p body @ post)
           = [\<lparr>filePath = trim p, diff = trim body\<rparr>]"
proof -
  from assms(4,5) have ne: "p \<noteq> []" "body \<noteq> []" using trim_Nil by auto
  have ff: "fenceFree body" using assms(6,7) by (rule fenceFree_natural)
  have e: "codeBlockRegexExec (pre @ diffBlock p body @ post) = Some (p, body, post)"
    using assms(1) ne(1) assms(3) ne(2) ff by (rule exec_diffBlock)
  have n: "codeBlockRegexExec post = None" using assms(2) by (rule exec_none)
  have "parseLoop post = []" using n by (rule parseLoop_done)
  then show ?thesis
    using assms(4,5) by (simp add: parseSuggestionsFromComment_def parseLoop_rec [OF e])
qed

theorem parse_single_diff_block_witness:
  "\<not> occursIn diffTag ''See: ```js\<newline>f()```\<newline>'' \<and>
   \<not> occursIn diffTag ''\<newline>Thanks'' \<and>
   \<not> list_ex isLineTerminator ''src/a.ts '' \<and>
   \<not> occursIn fence ''  @@ -1 +1 @@\<newline>- a = `x`\<newline>+ b\<newline>\<newline>'' \<and>
   last ''  @@ -1 +1 @@\<newline>- a = `x`\<newline>+ b\<newline>\<newline>'' \<noteq> CHR 0x60 \<and>
   parseSuggestionsFromComment
     (''See: ```js\<newline>f()```\<newline>''
      @ diffBlock ''src/a.ts '' ''  @@ -1 +1 @@\<newline>- a = `x`\<newline>+ b\<newline>\<newline>''
      @ ''\<newline>Thanks'')
     = [\<lparr>filePath = ''src/a.ts'', diff = ''@@ -1 +1 @@\<newline>- a = `x`\<newline>+ b''\<rparr>]"
proof -
  have 1: "\<not> occursIn diffTag ''See: ```js\<newline>f()```\<newline>''"
    by (simp add: diffTag_def)
  have 2: "\<not> occursIn diffTag ''\<newline>Thanks''"
    by (simp add: diffTag_def)
  have 3: "\<forall>c\<in>set ''src/a.ts ''. \<not> isLineTerminator c"
    by (simp add: isLineTerminator_def)
  have 4: "trim ''src/a.ts '' = ''src/a.ts''"
    by (simp add: trim_def isWhiteSpace_def)
  have 5: "trim ''  @@ -1 +1 @@\<newline>- a = `x`\<newline>+ b\<newline>\<newline>''
      = ''@@ -1 +1 @@\<newline>- a = `x`\<newline>+ b''"
    by (simp add: trim_def isWhiteSpace_def)
  have 6: "\<not> occursIn fence ''  @@ -1 +1 @@\<newline>- a = `x`\<newline>+ b\<newline>\<newline>''"
    by (simp add: fence_def)
  have 7: "\<not> list_ex isLineTerminator ''src/a.ts ''"
    by (simp add: isLineTerminator_def)
  have 8: "last ''  @@ -1 +1 @@\<newline>- a = `x`\<newline>+ b\<newline>\<newline>'' \<noteq> CHR 0x60"
    by simp
  from parse_single_diff_block [OF 1 2 3 _ _ 6 8] 4 5
  have "parseSuggestionsFromComment
     (''See: ```js\<newline>f()```\<newline>''
      @ diffBlock ''src/a.ts '' ''  @@ -1 +1 @@\<newline>- a = `x`\<newline>+ b\<newline>\<newline>''
      @ ''\<newline>Thanks'')
     = [\<lparr>filePath = ''src/a.ts'', diff = ''@@ -1 +1 @@\<newline>- a = `x`\<newline>+ b''\<rparr>]"
    by simp
  with 1 2 6 7 8 show ?thesis by simp
qed

subsection \<open>Several blocks (claim C8)\<close>

text \<open>
  Claim C8: one edit for each fenced diff-tagged block with well-formed headers and a
  body that is not empty after trimming, in document order; a diff-tagged block with an
  empty body gives no edit. The source's body group \<^verbatim>\<open>([\s\S]+?)\<close> needs one character
  at least, so on an empty block it takes the first backtick of the closing fence and runs
  on to the next fence of the comment. Here the empty block for \<open>f\<close> is followed by a
  block for \<open>g\<close>: the source returns an edit for \<open>f\<close> whose diff is the closing fence,
  and none for \<open>g\<close>, whose opening fence the match has consumed.
\<close>

theorem parse_empty_block_runs_into_next_block:
  "parseSuggestionsFromComment
     (''```diff\<newline>--- a/f\<newline>+++ b/f\<newline>```'' @ ''\<newline>'' @ diffBlock ''g'' ''-x\<newline>'')
     = [\<lparr>filePath = ''f'', diff = ''```''\<rparr>]"
  by code_simp

subsection \<open>No empty path, no empty diff (claim C10)\<close>

text \<open>
  Claim C10: every edit that \<open>parseSuggestionsFromComment\<close> returns has a non-empty
  \<open>filePath\<close> and a non-empty \<open>diff\<close>; a match whose path trims to the empty string is
  dropped, whatever its body, and the result is that of the rest of the comment.
\<close>

theorem parse_edits_nonempty:
  "(\<forall>e \<in> set (parseSuggestionsFromComment c). filePath e \<noteq> [] \<and> diff e \<noteq> []) \<and>
   (codeBlockRegexExec c = Some (g1, g2, rest) \<and> trim g1 = [] \<longrightarrow>
      parseSuggestionsFromComment c = parseSuggestionsFromComment rest)"
proof -
  have a: "\<forall>e \<in> set (parseSuggestionsFromComment c). filePath e \<noteq> [] \<and> diff e \<noteq> []"
    unfolding parseSuggestionsFromComment_def using parseLoop_nonempty by blast
  have b: "parseSuggestionsFromComment c = parseSuggestionsFromComment rest"
    if "codeBlockRegexExec c = Some (g1, g2, rest)" "trim g1 = []"
    using that by (simp add: parseSuggestionsFromComment_def parseLoop_rec)
  from a b show ?thesis by blast
qed

theorem parse_edits_nonempty_witness:
  "codeBlockRegexExec
     (CHR ''x'' # diffBlock '' '' ''-a'' @ ''\<newline>'' @ diffBlock ''g'' ''-x\<newline>'')
     = Some ('' '', ''-a'', ''\<newline>'' @ diffBlock ''g'' ''-x\<newline>'') \<and>
   trim '' '' = [] \<and>
   parseSuggestionsFromComment
     (CHR ''x'' # diffBlock '' '' ''-a'' @ ''\<newline>'' @ diffBlock ''g'' ''-x\<newline>'')
     = parseSuggestionsFromComment (''\<newline>'' @ diffBlock ''g'' ''-x\<newline>'') \<and>
   parseSuggestionsFromComment (''\<newline>'' @ diffBlock ''g'' ''-x\<newline>'')
     = [\<lparr>filePath = ''g'', diff = ''-x''\<rparr>] \<and>
   filePath (hd (parseSuggestionsFromComment (''\<newline>'' @ diffBlock ''g'' ''-x\<newline>''))) \<noteq> [] \<and>
   diff (hd (parseSuggestionsFromComment (''\<newline>'' @ diffBlock ''g'' ''-x\<newline>''))) \<noteq> []"
proof -
  let ?c = "CHR ''x'' # diffBlock '' '' ''-a'' @ ''\<newline>'' @ diffBlock ''g'' ''-x\<newline>''"
  let ?r = "''\<newline>'' @ diffBlock ''g'' ''-x\<newline>''"
  have e: "codeBlockRegexExec ?c = Some ('' '', ''-a'', ?r)" by code_simp
  have t: "trim '' '' = []" by code_simp
  have p: "parseSuggestionsFromComment ?r = [\<lparr>filePath = ''g'', diff = ''-x''\<rparr>]"
    by code_simp
  from parse_edits_nonempty [of ?c "'' ''" "''-a''" ?r] e t
  have q: "parseSuggestionsFromComment ?c = parseSuggestionsFromComment ?r"
    by simp
  from parse_edits_nonempty [of ?r] p
  have n: "filePath (hd (parseSuggestionsFromComment ?r)) \<noteq> []"
    "diff (hd (parseSuggestionsFromComment ?r)) \<noteq> []"
    by simp_all
  from e t p q n show ?thesis by simp
qed
subsection \<open>Blocks in document order\<close>

text \<open>
  A comment in which no diff tag occurs yields no edit.
\<close>

theorem parse_no_diff_tag:
  "\<not> occursIn diffTag c \<Longrightarrow> parseSuggestionsFromComment c = []"
  by (simp add: parseSuggestionsFromComment_def parseLoop_done exec_none)

theorem parse_no_diff_tag_witness:
  "\<not> occursIn diffTag ''Looks good: ```js\<newline>f()\<newline>```'' \<and>
   parseSuggestionsFromComment ''Looks good: ```js\<newline>f()\<newline>```'' = []"
proof -
  have 1: "\<not> occursIn diffTag ''Looks good: ```js\<newline>f()\<newline>```''"
    by (simp add: diffTag_def)
  from parse_no_diff_tag [OF 1] 1 show ?thesis by simp
qed

text \<open>
  A comment made of diff-tagged blocks with well-formed headers and bodies that are not
  empty after trimming and in which no fence begins (\<open>fenceFree\<close>: no fence in the
  body, no backtick at its end), each after a text in which no diff tag occurs
  (other fenced blocks included), yields exactly one edit for each block, in document
  order.
\<close>

theorem parse_blocks_in_order:
  assumes "list_all wellFormedBlock blocks" "\<not> occursIn diffTag post"
  shows "parseSuggestionsFromComment (renderBlocks blocks post)
           = map (\<lambda>(pre, p, body). \<lparr>filePath = trim p, diff = trim body\<rparr>) blocks"
  using assms(1)
proof (induction blocks)
  case Nil
  with assms(2) show ?case
    by (simp add: parseSuggestionsFromComment_def parseLoop_done exec_none)
next
  case (Cons b blocks)
  obtain pre p body where b: "b = (pre, p, body)" by (cases b) auto
  from Cons.prems b have w: "\<not> occursIn diffTag pre" "\<forall>c\<in>set p. \<not> isLineTerminator c"
    "trim p \<noteq> []" "trim body \<noteq> []" "fenceFree body"
    by (simp_all add: wellFormedBlock_def list_ex_iff)
  from w(3,4) have ne: "p \<noteq> []" "body \<noteq> []" using trim_Nil by auto
  have e: "codeBlockRegexExec (pre @ diffBlock p body @ renderBlocks blocks post)
      = Some (p, body, renderBlocks blocks post)"
    using w(1) ne(1) w(2) ne(2) w(5) by (rule exec_diffBlock)
  from Cons.prems Cons.IH
  have "parseLoop (renderBlocks blocks post)
      = map (\<lambda>(pre, p, body). \<lparr>filePath = trim p, diff = trim body\<rparr>) blocks"
    by (simp add: parseSuggestionsFromComment_def)
  with b w(3,4) show ?case
    by (simp add: parseSuggestionsFromComment_def parseLoop_rec [OF e])
qed

theorem parse_blocks_in_order_witness:
  "parseSuggestionsFromComment
     (renderBlocks
        [(''First:\<newline>'', ''src/a.ts'', ''-a\<newline>+b\<newline>''),
         (''\<newline>```js\<newline>f()\<newline>```\<newline>Then:\<newline>'', ''b.toml'', ''-k = 1\<newline>+k = 2\<newline>'')]
        ''\<newline>Done.'')
     = [\<lparr>filePath = ''src/a.ts'', diff = ''-a\<newline>+b''\<rparr>,
        \<lparr>filePath = ''b.toml'', diff = ''-k = 1\<newline>+k = 2''\<rparr>]"
proof -
  have 1: "list_all wellFormedBlock
        [(''First:\<newline>'', ''src/a.ts'', ''-a\<newline>+b\<newline>''),
         (''\<newline>```js\<newline>f()\<newline>```\<newline>Then:\<newline>'', ''b.toml'', ''-k = 1\<newline>+k = 2\<newline>'')]"
    by (simp add: wellFormedBlock_def diffTag_def isLineTerminator_def trim_def isWhiteSpace_def
        fenceFree_def fence_def)
  have 2: "\<not> occursIn diffTag ''\<newline>Done.''" by (simp add: diffTag_def)
  from parse_blocks_in_order [OF 1 2] show ?thesis
    by (simp add: trim_def isWhiteSpace_def)
qed

section \<open>Properties of the readiness poller\<close>

lemma waitLoop_stop:
  "\<not> attempt \<le> maxAttempts \<Longrightarrow>
   waitLoop octokit repo n sha attempt w = (w, [Log (StillNotReady n)])"
  by (subst waitLoop.simps) simp

lemma waitLoop_ready:
  "attempt \<le> maxAttempts \<Longrightarrow>
   pulls_get octokit w (repo_owner repo) (repo_name repo) n = (Inr pr, w1) \<Longrightarrow>
   isReady sha pr \<Longrightarrow>
   waitLoop octokit repo n sha attempt w =
     (w1, [Call (PullsGet (repo_owner repo) (repo_name repo) n) (GotPull pr),
           Log (ReadyForMerge n attempt)])"
  by (subst waitLoop.simps) (simp add: isReady_def)

lemma waitLoop_unready:
  "attempt \<le> maxAttempts \<Longrightarrow>
   pulls_get octokit w (repo_owner repo) (repo_name repo) n = (Inr pr, w1) \<Longrightarrow>
   \<not> isReady sha pr \<Longrightarrow>
   waitLoop octokit repo n sha attempt w =
     (fst (waitLoop octokit repo n sha (attempt + 1) w1),
      Call (PullsGet (repo_owner repo) (repo_name repo) n) (GotPull pr)
      # (if attempt < maxAttempts then [Log (NotReadyYet n attempt), Sleep 5000] else [])
      @ snd (waitLoop octokit repo n sha (attempt + 1) w1))"
  by (subst waitLoop.simps) (auto simp: isReady_def split: prod.splits)

lemma waitLoop_error:
  "attempt \<le> maxAttempts \<Longrightarrow>
   pulls_get octokit w (repo_owner repo) (repo_name repo) n = (Inl err, w1) \<Longrightarrow>
   waitLoop octokit repo n sha attempt w =
     (fst (waitLoop octokit repo n sha (attempt + 1) w1),
      Call (PullsGet (repo_owner repo) (repo_name repo) n) (Threw err)
      # Log (ErrorCheckingStatus attempt err)
      # (if attempt < maxAttempts then [Sleep 5000] else [])
      @ snd (waitLoop octokit repo n sha (attempt + 1) w1))"
  by (subst waitLoop.simps) (simp split: prod.splits)

text \<open>
  Induction over the attempts that are left: a property of the poller's run follows from
  the four ways an iteration can go.
\<close>

lemma waitLoop_trace_induct:
  assumes stop: "\<And>a. \<not> a \<le> maxAttempts \<Longrightarrow> P a [Log (StillNotReady n)]"
    and ready: "\<And>a pr. a \<le> maxAttempts \<Longrightarrow> isReady sha pr \<Longrightarrow>
      P a [Call (PullsGet (repo_owner repo) (repo_name repo) n) (GotPull pr),
           Log (ReadyForMerge n a)]"
    and unready: "\<And>a pr t. a \<le> maxAttempts \<Longrightarrow> \<not> isReady sha pr \<Longrightarrow> P (a + 1) t \<Longrightarrow>
      P a (Call (PullsGet (repo_owner repo) (repo_name repo) n) (GotPull pr)
           # (if a < maxAttempts then [Log (NotReadyYet n a), Sleep 5000] else []) @ t)"
    and failed: "\<And>a err t. a \<le> maxAttempts \<Longrightarrow> P (a + 1) t \<Longrightarrow>
      P a (Call (PullsGet (repo_owner repo) (repo_name repo) n) (Threw err)
           # Log (ErrorCheckingStatus a err)
           # (if a < maxAttempts then [Sleep 5000] else []) @ t)"
  shows "P attempt (snd (waitLoop octokit repo n sha attempt w))"
proof (induction "maxAttempts + 1 - attempt" arbitrary: attempt w)
  case 0
  then have "\<not> attempt \<le> maxAttempts" by simp
  then show ?case by (simp add: waitLoop_stop stop)
next
  case (Suc k)
  then have le: "attempt \<le> maxAttempts" and k: "k = maxAttempts + 1 - (attempt + 1)"
    by simp_all
  obtain r w1 where g: "pulls_get octokit w (repo_owner repo) (repo_name repo) n = (r, w1)"
    by (cases "pulls_get octokit w (repo_owner repo) (repo_name repo) n") auto
  have IH: "P (attempt + 1) (snd (waitLoop octokit repo n sha (attempt + 1) w1))"
    using Suc.hyps(1) [OF k] .
  show ?case
  proof (cases r)
    case (Inl err)
    with g le IH show ?thesis by (simp add: waitLoop_error failed)
  next
    case (Inr pr)
    show ?thesis
    proof (cases "isReady sha pr")
      case True
      with g le Inr show ?thesis by (simp add: waitLoop_ready ready)
    next
      case False
      with g le Inr IH show ?thesis by (simp add: waitLoop_unready unready)
    qed
  qed
qed

lemma wait_fetches:
  "length (filter isFetch (snd (waitLoop octokit repo n sha attempt w)))
     \<le> maxAttempts + 1 - attempt"
  by (rule waitLoop_trace_induct
        [where P = "\<lambda>a t. length (filter isFetch t) \<le> maxAttempts + 1 - a"])
    auto

lemma wait_sleeps:
  "length (filter isSleep (snd (waitLoop octokit repo n sha attempt w)))
     + (if attempt \<le> maxAttempts then 1 else 0)
   = length (filter isFetch (snd (waitLoop octokit repo n sha attempt w)))"
  by (rule waitLoop_trace_induct
        [where P = "\<lambda>a t. length (filter isSleep t) + (if a \<le> maxAttempts then 1 else 0)
                          = length (filter isFetch t)"])
    auto

lemma wait_sleep_5000:
  "Sleep ms \<in> set (snd (waitLoop octokit repo n sha attempt w)) \<Longrightarrow> ms = 5000"
  by (rule waitLoop_trace_induct
        [where P = "\<lambda>a t. Sleep ms \<in> set t \<longrightarrow> ms = 5000", rule_format])
    (auto split: if_splits)

lemma wait_early:
  "(list_ex (readyAnswer sha) (snd (waitLoop octokit repo n sha attempt w)))
   = (\<exists>k. k \<le> maxAttempts
          \<and> last (snd (waitLoop octokit repo n sha attempt w)) = Log (ReadyForMerge n k))"
  by (rule waitLoop_trace_induct
        [where P = "\<lambda>a t. t \<noteq> [] \<and> (list_ex (readyAnswer sha) t
           = (\<exists>k. k \<le> maxAttempts \<and> last t = Log (ReadyForMerge n k)))", THEN conjunct2])
    auto

lemma wait_early_fetches:
  "last (snd (waitLoop octokit repo n sha attempt w)) = Log (ReadyForMerge n k) \<Longrightarrow>
   length (filter isFetch (snd (waitLoop octokit repo n sha attempt w))) + attempt = k + 1"
  by (rule waitLoop_trace_induct
        [where P = "\<lambda>a t. t \<noteq> [] \<and> (last t = Log (ReadyForMerge n k) \<longrightarrow>
           length (filter isFetch t) + a = k + 1)", THEN conjunct2, rule_format])
    auto

lemma wait_exhausted:
  "(\<not> list_ex (readyAnswer sha) (snd (waitLoop octokit repo n sha attempt w)))
   = (last (snd (waitLoop octokit repo n sha attempt w)) = Log (StillNotReady n))"
  by (rule waitLoop_trace_induct
        [where P = "\<lambda>a t. t \<noteq> [] \<and> ((\<not> list_ex (readyAnswer sha) t)
           = (last t = Log (StillNotReady n)))", THEN conjunct2])
    auto

lemma wait_exhausted_fetches:
  "last (snd (waitLoop octokit repo n sha attempt w)) = Log (StillNotReady n) \<Longrightarrow>
   length (filter isFetch (snd (waitLoop octokit repo n sha attempt w)))
     = maxAttempts + 1 - attempt"
  by (rule waitLoop_trace_induct
        [where P = "\<lambda>a t. t \<noteq> [] \<and> (last t = Log (StillNotReady n) \<longrightarrow>
           length (filter isFetch t) = maxAttempts + 1 - a)", THEN conjunct2, rule_format])
    auto

lemma wait_spaced:
  "if attempt \<le> maxAttempts
   then spaced (fetchesAndSleeps (snd (waitLoop octokit repo n sha attempt w)))
   else fetchesAndSleeps (snd (waitLoop octokit repo n sha attempt w)) = []"
  by (rule waitLoop_trace_induct
        [where P = "\<lambda>a t. if a \<le> maxAttempts then spaced (fetchesAndSleeps t)
                          else fetchesAndSleeps t = []"])
    (auto simp: fetchesAndSleeps_def)

text \<open>
  Claim C6: \<open>waitForPullRequestReady\<close> returns on every input (it is a total function
  whose result holds no thrown value: every fetch is inside \<open>try\<close>) after at most 12
  fetches, with a suspension of 5000 ms between every two fetches and none after the
  last. It returns early, its run ending with the message of readiness at attempt \<open>k\<close>
  after exactly \<open>k\<close> fetches, exactly when a fetched pull request has the expected head
  SHA and a mergeability that is not \<open>null\<close>; otherwise it makes all 12 fetches, warns
  and returns all the same.
\<close>

theorem waitForPullRequestReady_bounded:
  fixes octokit :: "'w Octokit" and repo prNumber expectedSha w
  defines "t \<equiv> snd (waitForPullRequestReady octokit repo prNumber expectedSha w)"
  shows "length (filter isFetch t) \<le> 12 \<and>
         length (filter isSleep t) + 1 = length (filter isFetch t) \<and>
         (\<forall>ms. Sleep ms \<in> set t \<longrightarrow> ms = 5000) \<and>
         spaced (fetchesAndSleeps t) \<and>
         (list_ex (readyAnswer expectedSha) t
            \<longleftrightarrow> (\<exists>k. k \<le> 12 \<and> last t = Log (ReadyForMerge prNumber k)
                     \<and> length (filter isFetch t) = k)) \<and>
         (\<not> list_ex (readyAnswer expectedSha) t
            \<longleftrightarrow> last t = Log (StillNotReady prNumber) \<and> length (filter isFetch t) = 12)"
proof -
  have 1: "length (filter isFetch t) \<le> 12"
    using wait_fetches [of octokit repo prNumber expectedSha 1 w]
    by (simp add: t_def waitForPullRequestReady_def maxAttempts_def)
  have 2: "length (filter isSleep t) + 1 = length (filter isFetch t)"
    using wait_sleeps [of octokit repo prNumber expectedSha 1 w]
    by (simp add: t_def waitForPullRequestReady_def maxAttempts_def)
  have 3: "\<forall>ms. Sleep ms \<in> set t \<longrightarrow> ms = 5000"
    using wait_sleep_5000 [of _ octokit repo prNumber expectedSha 1 w]
    by (auto simp: t_def waitForPullRequestReady_def)
  have 4: "list_ex (readyAnswer expectedSha) t
     \<longleftrightarrow> (\<exists>k. k \<le> 12 \<and> last t = Log (ReadyForMerge prNumber k)
              \<and> length (filter isFetch t) = k)"
    using wait_early [of expectedSha octokit repo prNumber 1 w]
      wait_early_fetches [of octokit repo prNumber expectedSha 1 w]
    by (auto simp: t_def waitForPullRequestReady_def maxAttempts_def)
  have 5: "\<not> list_ex (readyAnswer expectedSha) t
     \<longleftrightarrow> last t = Log (StillNotReady prNumber) \<and> length (filter isFetch t) = 12"
    using wait_exhausted [of expectedSha octokit repo prNumber 1 w]
      wait_exhausted_fetches [of octokit repo prNumber expectedSha 1 w]
    by (auto simp: t_def waitForPullRequestReady_def maxAttempts_def)
  have 6: "spaced (fetchesAndSleeps t)"
    using wait_spaced [of 1 octokit repo prNumber expectedSha w]
    by (simp add: t_def waitForPullRequestReady_def maxAttempts_def)
  from 1 2 3 4 5 6 show ?thesis by blast
qed

theorem waitForPullRequestReady_bounded_witness:
  "list_ex (readyAnswer ''c1'') (snd (waitForPullRequestReady demoOctokit demoRepo 7 ''c1'' 0)) \<and>
   last (snd (waitForPullRequestReady demoOctokit demoRepo 7 ''c1'' 0)) = Log (ReadyForMerge 7 3) \<and>
   length (filter isFetch (snd (waitForPullRequestReady demoOctokit demoRepo 7 ''c1'' 0))) = 3 \<and>
   length (filter isSleep (snd (waitForPullRequestReady demoOctokit demoRepo 7 ''c1'' 0))) = 2 \<and>
   \<not> list_ex (readyAnswer ''zz'') (snd (waitForPullRequestReady demoOctokit demoRepo 7 ''zz'' 0)) \<and>
   last (snd (waitForPullRequestReady demoOctokit demoRepo 7 ''zz'' 0)) = Log (StillNotReady 7) \<and>
   length (filter isFetch (snd (waitForPullRequestReady demoOctokit demoRepo 7 ''zz'' 0))) = 12 \<and>
   length (filter isSleep (snd (waitForPullRequestReady demoOctokit demoRepo 7 ''zz'' 0))) = 11"
proof -
  let ?t = "snd (waitForPullRequestReady demoOctokit demoRepo 7 ''c1'' 0)"
  let ?u = "snd (waitForPullRequestReady demoOctokit demoRepo 7 ''zz'' 0)"
  have a: "list_ex (readyAnswer ''c1'') ?t"
    by (simp add: waitForPullRequestReady_def waitLoop.simps maxAttempts_def demo_calls
        demoRepo_def isReady_def)
  have l: "last ?t = Log (ReadyForMerge 7 3)"
    by (simp add: waitForPullRequestReady_def waitLoop.simps maxAttempts_def demo_calls
        demoRepo_def isReady_def)
  have b: "\<not> list_ex (readyAnswer ''zz'') ?u"
    by (simp add: waitForPullRequestReady_def waitLoop.simps maxAttempts_def demo_calls
        demoRepo_def isReady_def)
  note T = waitForPullRequestReady_bounded [of demoOctokit demoRepo 7 "''c1''" 0]
  note U = waitForPullRequestReady_bounded [of demoOctokit demoRepo 7 "''zz''" 0]
  from T a l have t3: "length (filter isFetch ?t) = 3" by auto
  from T t3 have t2: "length (filter isSleep ?t) = 2" by auto
  from U b have u12: "last ?u = Log (StillNotReady 7)" "length (filter isFetch ?u) = 12"
    by auto
  from U u12 have u11: "length (filter isSleep ?u) = 11" by auto
  from a l t3 t2 b u12 u11 show ?thesis by blast
qed

section \<open>Properties of the merge orchestrator\<close>

lemma mergePullRequest_merged:
  assumes "pulls_get octokit w (repo_owner repo) (repo_name repo) n = (Inr pr, w1)" "pr_merged pr"
  shows "mergePullRequest octokit repo n config w =
    (w1, [Log (AttemptingToMerge n),
          Call (PullsGet (repo_owner repo) (repo_name repo) n) (GotPull pr),
          Log (AlreadyMerged n)])"
  using assms by (simp add: mergePullRequest_def)

text \<open>
  Claim C7: on a pull request whose fetched state reports merged, \<open>mergePullRequest\<close>
  fetches, logs that the pull request is already merged and returns: the world is the one
  the fetch left, and the run holds no merge call and no integration merge. Invoked twice
  in a row on such a pull request it does the same both times.
\<close>

theorem mergePullRequest_already_merged:
  assumes "pulls_get octokit w (repo_owner repo) (repo_name repo) n = (Inr pr1, w1)"
    and "pr_merged pr1"
    and "pulls_get octokit w1 (repo_owner repo) (repo_name repo) n = (Inr pr2, w2)"
    and "pr_merged pr2"
  shows "mergePullRequest octokit repo n config w =
           (w1, [Log (AttemptingToMerge n),
                 Call (PullsGet (repo_owner repo) (repo_name repo) n) (GotPull pr1),
                 Log (AlreadyMerged n)]) \<and>
         mergePullRequest octokit repo n config w1 =
           (w2, [Log (AttemptingToMerge n),
                 Call (PullsGet (repo_owner repo) (repo_name repo) n) (GotPull pr2),
                 Log (AlreadyMerged n)]) \<and>
         \<not> list_ex isMergeCall (snd (mergePullRequest octokit repo n config w)) \<and>
         \<not> list_ex isMergeCall (snd (mergePullRequest octokit repo n config w1))"
proof -
  have 1: "mergePullRequest octokit repo n config w =
           (w1, [Log (AttemptingToMerge n),
                 Call (PullsGet (repo_owner repo) (repo_name repo) n) (GotPull pr1),
                 Log (AlreadyMerged n)])"
    using assms(1,2) by (rule mergePullRequest_merged)
  have 2: "mergePullRequest octokit repo n config w1 =
           (w2, [Log (AttemptingToMerge n),
                 Call (PullsGet (repo_owner repo) (repo_name repo) n) (GotPull pr2),
                 Log (AlreadyMerged n)])"
    using assms(3,4) by (rule mergePullRequest_merged)
  show ?thesis by (simp add: 1 2)
qed

theorem mergePullRequest_already_merged_witness:
  "mergePullRequest demoOctokit demoRepo 8 demoConfig 0 =
     (1, [Log (AttemptingToMerge 8),
          Call (PullsGet ''acme'' ''app'' 8)
            (GotPull \<lparr>pr_number = 8, pr_head_ref = ''feature'', pr_head_sha = ''h0'',
                      pr_base_ref = ''develop'', pr_merged = True, pr_mergeable = None\<rparr>),
          Log (AlreadyMerged 8)]) \<and>
   mergePullRequest demoOctokit demoRepo 8 demoConfig 1 =
     (2, [Log (AttemptingToMerge 8),
          Call (PullsGet ''acme'' ''app'' 8)
            (GotPull \<lparr>pr_number = 8, pr_head_ref = ''feature'', pr_head_sha = ''h0'',
                      pr_base_ref = ''develop'', pr_merged = True, pr_mergeable = None\<rparr>),
          Log (AlreadyMerged 8)])"
proof -
  let ?pr = "\<lparr>pr_number = 8, pr_head_ref = ''feature'', pr_head_sha = ''h0'',
              pr_base_ref = ''develop'', pr_merged = True, pr_mergeable = None\<rparr>"
  have 1: "pulls_get demoOctokit 0 (repo_owner demoRepo) (repo_name demoRepo) 8 = (Inr ?pr, 1)"
    by (simp add: demo_calls)
  have 2: "pulls_get demoOctokit 1 (repo_owner demoRepo) (repo_name demoRepo) 8 = (Inr ?pr, 2)"
    by (simp add: demo_calls)
  have 3: "pr_merged ?pr" by simp
  from mergePullRequest_already_merged [OF 1 3 2 3] show ?thesis
    by (simp add: demoRepo_def)
qed

subsection \<open>A pull request that cannot be merged\<close>

text \<open>
  On a pull request that is not merged and whose mergeability is not \<open>true\<close> (false, or
  unknown), \<open>mergePullRequest\<close> logs and returns after the fetch: no merge call and no
  integration merge.
\<close>

theorem mergePullRequest_unmergeable:
  assumes "pulls_get octokit w (repo_owner repo) (repo_name repo) n = (Inr pr, w1)"
    and "\<not> pr_merged pr" and "pr_mergeable pr \<noteq> Some True"
  shows "mergePullRequest octokit repo n config w =
           (w1, [Log (AttemptingToMerge n),
                 Call (PullsGet (repo_owner repo) (repo_name repo) n) (GotPull pr),
                 Log (NotMergeable n (pr_mergeable pr))]) \<and>
         \<not> list_ex isMergeCall (snd (mergePullRequest octokit repo n config w))"
  using assms by (simp add: mergePullRequest_def)

theorem mergePullRequest_unmergeable_witness:
  "mergePullRequest demoOctokit demoRepo 7 demoConfig 0 =
     (1, [Log (AttemptingToMerge 7),
          Call (PullsGet ''acme'' ''app'' 7)
            (GotPull \<lparr>pr_number = 7, pr_head_ref = ''feature'', pr_head_sha = ''h0'',
                      pr_base_ref = ''develop'', pr_merged = False, pr_mergeable = None\<rparr>),
          Log (NotMergeable 7 None)])"
proof -
  let ?pr = "\<lparr>pr_number = 7, pr_head_ref = ''feature'', pr_head_sha = ''h0'',
              pr_base_ref = ''develop'', pr_merged = False, pr_mergeable = None\<rparr>"
  have 1: "pulls_get demoOctokit 0 (repo_owner demoRepo) (repo_name demoRepo) 7 = (Inr ?pr, 1)"
    by (simp add: demo_calls)
  from mergePullRequest_unmergeable [OF 1] show ?thesis
    by (simp add: demoRepo_def)
qed

section \<open>Properties of the commit builder\<close>

text \<open>What a run of the poller can hold: fetches, its four messages and suspensions.\<close>

lemma wait_only:
  assumes "\<And>owner repoName m r. \<not> Q (Call (PullsGet owner repoName m) r)"
    and "\<And>m a. \<not> Q (Log (ReadyForMerge m a))"
    and "\<And>m a. \<not> Q (Log (NotReadyYet m a))"
    and "\<And>a err. \<not> Q (Log (ErrorCheckingStatus a err))"
    and "\<And>m. \<not> Q (Log (StillNotReady m))"
    and "\<And>ms. \<not> Q (Sleep ms)"
  shows "\<not> list_ex Q (snd (waitLoop octokit repo n sha attempt w))"
  by (rule waitLoop_trace_induct [where P = "\<lambda>a t. \<not> list_ex Q t"]) (auto simp: assms)

lemma merge_only:
  assumes "\<And>owner repoName m r. \<not> Q (Call (PullsGet owner repoName m) r)"
    and "\<And>owner repoName m method r. \<not> Q (Call (PullsMerge owner repoName m method) r)"
    and "\<And>owner repoName base head message r.
           \<not> Q (Call (ReposMerge owner repoName base head message) r)"
    and "\<And>m. \<not> Q (Log (AttemptingToMerge m))"
    and "\<And>m. \<not> Q (Log (AlreadyMerged m))"
    and "\<And>m s. \<not> Q (Log (NotMergeable m s))"
    and "\<And>m s. \<not> Q (Log (FailedToMerge m s))"
    and "\<And>m. \<not> Q (Log (MergedPullRequest m))"
    and "\<And>a b. \<not> Q (Log (Integrating a b))"
    and "\<And>a b. \<not> Q (Log (Integrated a b))"
    and "\<And>a b err. \<not> Q (Log (IntegrationFailed a b err))"
    and "\<And>m err. \<not> Q (Log (ErrorMerging m err))"
  shows "\<not> list_ex Q (snd (mergePullRequest octokit repo n config w))"
  by (auto simp: mergePullRequest_def Let_def assms split: prod.splits sum.splits)

lemma createBlobs_only:
  assumes "\<And>owner repoName content encoding r.
             \<not> Q (Call (GitCreateBlob owner repoName content encoding) r)"
  shows "createBlobs octokit repo changeSet w = (rs, w', t) \<Longrightarrow> \<not> list_ex Q t"
proof (induction changeSet arbitrary: w rs w' t)
  case Nil
  then show ?case by simp
next
  case (Cons entry changeSet)
  obtain path content where e: "entry = (path, content)" by (cases entry) auto
  obtain r w1 where g: "git_createBlob octokit w (repo_owner repo) (repo_name repo) content
      ''utf-8'' = (r, w1)"
    by (cases "git_createBlob octokit w (repo_owner repo) (repo_name repo) content ''utf-8''") auto
  obtain rs2 w2 t2 where c: "createBlobs octokit repo changeSet w1 = (rs2, w2, t2)"
    by (cases "createBlobs octokit repo changeSet w1") auto
  from Cons.prems e g c
  have "t = Call (GitCreateBlob (repo_owner repo) (repo_name repo) content ''utf-8'')
              (threwOr GotSha r) # t2"
    by simp
  with Cons.IH [OF c] assms show ?case by simp
qed

text \<open>The loop over the suggestions makes no call but the content fetches.\<close>

lemma applyLoop_only:
  assumes "\<And>owner repoName path ref r. \<not> Q (Call (ReposGetContent owner repoName path ref) r)"
    and "\<And>c. \<not> Q (Log c)"
  shows "applyLoop octokit lib repo headSha suggestions changeSet w = (r, w', t)
    \<Longrightarrow> \<not> list_ex Q t"
proof (induction suggestions arbitrary: changeSet w r w' t)
  case Nil
  then show ?case by simp
next
  case (Cons s rest)
  show ?case
    using Cons.prems Cons.IH assms
    by (auto simp: Let_def split: prod.splits sum.splits ContentResponse.splits option.splits)
qed

text \<open>A loop that runs to its end has met no failed patch and no throwing fetch.\<close>

lemma applyLoop_Some:
  "applyLoop octokit lib repo headSha suggestions changeSet w = (Some cs, w', t) \<Longrightarrow>
   Log (FailedToApplyPatch p) \<notin> set t \<and>
   Call (ReposGetContent owner repoName path ref) (Threw err) \<notin> set t"
proof (induction suggestions arbitrary: changeSet w w' t)
  case Nil
  then show ?case by simp
next
  case (Cons s rest)
  show ?case
    using Cons.prems Cons.IH
    by (auto simp: Let_def split: prod.splits sum.splits ContentResponse.splits option.splits)
qed

lemma wait_commitStep:
  "waitForPullRequestReady octokit repo n sha w = (w', t) \<Longrightarrow> list_all (commitStepEvent h) t"
  using wait_only [where Q = "\<lambda>ev. \<not> commitStepEvent h ev", of octokit repo n sha 1 w]
  by (simp add: waitForPullRequestReady_def list_all_iff list_ex_iff)

lemma merge_commitStep:
  "mergePullRequest octokit repo n config w = (w', t) \<Longrightarrow> list_all (commitStepEvent h) t"
  using merge_only [where Q = "\<lambda>ev. \<not> commitStepEvent h ev", of octokit repo n config w]
  by (simp add: list_all_iff list_ex_iff)

lemma createBlobs_commitStep:
  "createBlobs octokit repo changeSet w = (rs, w', t) \<Longrightarrow> list_all (commitStepEvent h) t"
  using createBlobs_only [where Q = "\<lambda>ev. \<not> commitStepEvent h ev",
      of octokit repo changeSet w rs w' t]
  by (simp add: list_all_iff list_ex_iff)

lemma commitChangeSet_commitStep:
  "list_all (commitStepEvent headSha)
     (snd (commitChangeSet octokit env config repo pr headSha changeSet w))"
  by (auto simp: commitChangeSet_def Let_def
      split: prod.splits sum.splits
      dest: wait_commitStep [where h = headSha] merge_commitStep [where h = headSha]
        createBlobs_commitStep [where h = headSha])

text \<open>The three ways \<open>applySuggestions\<close> can go, by what the loop returned.\<close>

lemma applySuggestions_aborted:
  "applyLoop octokit lib repo (pr_head_sha pr) suggestions [] w = (None, w1, t1) \<Longrightarrow>
   applySuggestions octokit lib env config repo pr suggestions w =
     (w1, Log (AttemptingToApply (length suggestions) (pr_head_ref pr)) # t1)"
  by (simp add: applySuggestions_def)

lemma applySuggestions_empty:
  "applyLoop octokit lib repo (pr_head_sha pr) suggestions [] w = (Some [], w1, t1) \<Longrightarrow>
   applySuggestions octokit lib env config repo pr suggestions w =
     (w1, Log (AttemptingToApply (length suggestions) (pr_head_ref pr)) # t1
          @ [Log NoSuggestionsApplied])"
  by (simp add: applySuggestions_def)

lemma applySuggestions_committing:
  "applyLoop octokit lib repo (pr_head_sha pr) suggestions [] w = (Some cs, w1, t1) \<Longrightarrow>
   cs \<noteq> [] \<Longrightarrow>
   applySuggestions octokit lib env config repo pr suggestions w =
     (fst (commitChangeSet octokit env config repo pr (pr_head_sha pr) cs w1),
      Log (AttemptingToApply (length suggestions) (pr_head_ref pr)) # t1
      @ snd (commitChangeSet octokit env config repo pr (pr_head_sha pr) cs w1))"
  by (simp add: applySuggestions_def split: prod.splits)

text \<open>
  An event of the loop that is no commit step (a failed patch, a throwing fetch) is in a
  run of \<open>applySuggestions\<close> only when the loop returned from inside: then nothing was
  committed.
\<close>

lemma applySuggestions_loop_event_aborts:
  assumes ev: "ev \<in> set (snd (applySuggestions octokit lib env config repo pr suggestions w))"
    and loop: "\<And>cs w1 t1.
      applyLoop octokit lib repo (pr_head_sha pr) suggestions [] w = (Some cs, w1, t1)
      \<Longrightarrow> ev \<notin> set t1"
    and nostep: "\<not> commitStepEvent (pr_head_sha pr) ev"
    and nolog: "ev \<noteq> Log (AttemptingToApply (length suggestions) (pr_head_ref pr))"
      "ev \<noteq> Log NoSuggestionsApplied"
  shows "fst (applyLoop octokit lib repo (pr_head_sha pr) suggestions [] w) = None \<and>
         \<not> list_ex isCommitCall
             (snd (applySuggestions octokit lib env config repo pr suggestions w))"
proof -
  obtain r w1 t1 where L: "applyLoop octokit lib repo (pr_head_sha pr) suggestions [] w = (r, w1, t1)"
    by (cases "applyLoop octokit lib repo (pr_head_sha pr) suggestions [] w") auto
  have r: "r = None"
  proof (rule ccontr)
    assume "r \<noteq> None"
    then obtain cs where cs: "r = Some cs" by auto
    from loop L cs have n1: "ev \<notin> set t1" by simp
    have n2: "ev \<notin> set (snd (commitChangeSet octokit env config repo pr (pr_head_sha pr) cs w1))"
      using commitChangeSet_commitStep [of "pr_head_sha pr" octokit env config repo pr cs w1]
        nostep by (auto simp: list_all_iff)
    show False
    proof (cases "cs = []")
      case True
      with L cs ev n1 nolog show False by (simp add: applySuggestions_empty)
    next
      case False
      with L cs ev n1 n2 nolog show False by (simp add: applySuggestions_committing)
    qed
  qed
  have "\<not> list_ex isCommitCall t1"
    using L by (rule applyLoop_only [rotated 2]) simp_all
  with L r show ?thesis by (simp add: applySuggestions_aborted)
qed

subsection \<open>A patch that does not apply (claim C1)\<close>

text \<open>
  Claim C1: when \<open>applyPatch\<close> returns \<open>false\<close> for an edit, the loop returns at once,
  whatever change set the earlier edits have built, and no change set comes out of it;
  and a run of \<open>applySuggestions\<close> in which a patch failed to apply makes no blob, tree,
  commit or ref-update call.
\<close>

theorem applySuggestions_failed_patch_aborts:
  "(repos_getContent octokit w (repo_owner repo) (repo_name repo) (filePath s) (Some headSha)
      = (Inr (FileContent content), w1)
    \<and> atob lib content = Inr original
    \<and> applyPatch lib original (patchText s) = Inr None
    \<longrightarrow> applyLoop octokit lib repo headSha (s # rest) changeSet w =
          (None, w1,
           [Call (ReposGetContent (repo_owner repo) (repo_name repo) (filePath s) (Some headSha))
              (GotContent (FileContent content)),
            Log (FailedToApplyPatch (filePath s))])) \<and>
   (Log (FailedToApplyPatch p)
      \<in> set (snd (applySuggestions octokit lib env config repo pr suggestions w))
    \<longrightarrow> fst (applyLoop octokit lib repo (pr_head_sha pr) suggestions [] w) = None
        \<and> \<not> list_ex isCommitCall
              (snd (applySuggestions octokit lib env config repo pr suggestions w)))"
proof (intro conjI impI)
  assume "repos_getContent octokit w (repo_owner repo) (repo_name repo) (filePath s) (Some headSha)
      = (Inr (FileContent content), w1)
    \<and> atob lib content = Inr original
    \<and> applyPatch lib original (patchText s) = Inr None"
  then show "applyLoop octokit lib repo headSha (s # rest) changeSet w =
          (None, w1,
           [Call (ReposGetContent (repo_owner repo) (repo_name repo) (filePath s) (Some headSha))
              (GotContent (FileContent content)),
            Log (FailedToApplyPatch (filePath s))])"
    by simp
next
  assume a: "Log (FailedToApplyPatch p)
      \<in> set (snd (applySuggestions octokit lib env config repo pr suggestions w))"
  have s: "fst (applyLoop octokit lib repo (pr_head_sha pr) suggestions [] w) = None \<and>
         \<not> list_ex isCommitCall
             (snd (applySuggestions octokit lib env config repo pr suggestions w))"
    using a
  proof (rule applySuggestions_loop_event_aborts)
    fix cs w1 t1
    assume "applyLoop octokit lib repo (pr_head_sha pr) suggestions [] w = (Some cs, w1, t1)"
    then show "Log (FailedToApplyPatch p) \<notin> set t1"
      by (rule applyLoop_Some [THEN conjunct1])
  qed simp_all
  from s show "fst (applyLoop octokit lib repo (pr_head_sha pr) suggestions [] w) = None" ..
  from s show "\<not> list_ex isCommitCall
             (snd (applySuggestions octokit lib env config repo pr suggestions w))" ..
qed

theorem applySuggestions_failed_patch_aborts_witness:
  "repos_getContent demoOctokit 0 (repo_owner demoRepo) (repo_name demoRepo)
     (filePath \<lparr>filePath = ''b.txt'', diff = ''-old\<newline>+other''\<rparr>) (Some ''h0'')
     = (Inr (FileContent ''old''), 0) \<and>
   atob demoLib ''old'' = Inr ''old'' \<and>
   applyPatch demoLib ''old'' (patchText \<lparr>filePath = ''b.txt'', diff = ''-old\<newline>+other''\<rparr>)
     = Inr None \<and>
   applyLoop demoOctokit demoLib demoRepo ''h0''
     [\<lparr>filePath = ''b.txt'', diff = ''-old\<newline>+other''\<rparr>] [(''a.txt'', ''new'')] 0
     = (None, 0,
        [Call (ReposGetContent ''acme'' ''app'' ''b.txt'' (Some ''h0''))
           (GotContent (FileContent ''old'')),
         Log (FailedToApplyPatch ''b.txt'')]) \<and>
   Log (AppliedPatch ''a.txt'')
     \<in> set (snd (applySuggestions demoOctokit demoLib demoEnv demoConfig demoRepo demoPr
                [\<lparr>filePath = ''a.txt'', diff = ''-old\<newline>+new''\<rparr>,
                 \<lparr>filePath = ''b.txt'', diff = ''-old\<newline>+other''\<rparr>] 0)) \<and>
   Log (FailedToApplyPatch ''b.txt'')
     \<in> set (snd (applySuggestions demoOctokit demoLib demoEnv demoConfig demoRepo demoPr
                [\<lparr>filePath = ''a.txt'', diff = ''-old\<newline>+new''\<rparr>,
                 \<lparr>filePath = ''b.txt'', diff = ''-old\<newline>+other''\<rparr>] 0)) \<and>
   fst (applyLoop demoOctokit demoLib demoRepo (pr_head_sha demoPr)
          [\<lparr>filePath = ''a.txt'', diff = ''-old\<newline>+new''\<rparr>,
           \<lparr>filePath = ''b.txt'', diff = ''-old\<newline>+other''\<rparr>] [] 0) = None \<and>
   \<not> list_ex isCommitCall
       (snd (applySuggestions demoOctokit demoLib demoEnv demoConfig demoRepo demoPr
               [\<lparr>filePath = ''a.txt'', diff = ''-old\<newline>+new''\<rparr>,
                \<lparr>filePath = ''b.txt'', diff = ''-old\<newline>+other''\<rparr>] 0))"
proof -
  let ?a = "\<lparr>filePath = ''a.txt'', diff = ''-old\<newline>+new''\<rparr>"
  let ?b = "\<lparr>filePath = ''b.txt'', diff = ''-old\<newline>+other''\<rparr>"
  let ?run = "snd (applySuggestions demoOctokit demoLib demoEnv demoConfig demoRepo demoPr
                [?a, ?b] 0)"
  have 1: "repos_getContent demoOctokit 0 (repo_owner demoRepo) (repo_name demoRepo)
     (filePath ?b) (Some ''h0'') = (Inr (FileContent ''old''), 0)"
    by (simp add: demo_calls configPath_def)
  have 2: "atob demoLib ''old'' = Inr ''old''" by (simp add: demo_calls)
  have 3: "applyPatch demoLib ''old'' (patchText ?b) = Inr None"
    by (simp add: demo_calls patchText_def)
  have 4: "Log (AppliedPatch ''a.txt'') \<in> set ?run"
    by (simp add: demo_run configPath_def)
  have 5: "Log (FailedToApplyPatch ''b.txt'') \<in> set ?run"
    by (simp add: demo_run configPath_def)
  note T = applySuggestions_failed_patch_aborts
    [of demoOctokit 0 demoRepo ?b "''h0''" "''old''" 0 demoLib "''old''" "[]"
      "[(''a.txt'', ''new'')]" "''b.txt''" demoEnv demoConfig demoPr "[?a, ?b]"]
  from T 1 2 3 have 6: "applyLoop demoOctokit demoLib demoRepo ''h0'' [?b] [(''a.txt'', ''new'')] 0
     = (None, 0,
        [Call (ReposGetContent ''acme'' ''app'' ''b.txt'' (Some ''h0''))
           (GotContent (FileContent ''old'')),
         Log (FailedToApplyPatch ''b.txt'')])"
    by (simp add: demoRepo_def)
  from T 5 have 7: "fst (applyLoop demoOctokit demoLib demoRepo (pr_head_sha demoPr)
          [?a, ?b] [] 0) = None"
    "\<not> list_ex isCommitCall ?run"
    by blast+
  from 1 2 3 4 5 6 7 show ?thesis by blast
qed

subsection \<open>A path that is no file (claim C2)\<close>

text \<open>
  Claim C2 as stated: when the path of an edit does not resolve to a file (the fetch
  returns a non-file or fails), the whole batch is aborted and no commit is created. For
  a fetch that returns a non-file the source logs and goes on with the next suggestion
  (\<open>continue\<close>): on the example platform the batch of an edit for the directory \<open>docs\<close>
  and an edit for \<open>a.txt\<close> ends in a commit made of the second edit.
\<close>

theorem applySuggestions_skips_non_file_counterexample:
  "fst (repos_getContent demoOctokit 0 ''acme'' ''app'' ''docs'' (Some ''h0''))
     = Inr NoContentField \<and>
   Call (GitCreateCommit ''acme'' ''app'' ''feat: Apply code suggestions for PR #7'' ''tree1''
           [''h0''] ''GH-Worker-Bot'' ''bot@example.com'') (GotSha ''c1'')
     \<in> set (snd (applySuggestions demoOctokit demoLib demoEnv demoConfig demoRepo demoPr
                [\<lparr>filePath = ''docs'', diff = ''-old\<newline>+new''\<rparr>,
                 \<lparr>filePath = ''a.txt'', diff = ''-old\<newline>+new''\<rparr>] 0)) \<and>
   Call (GitUpdateRef ''acme'' ''app'' ''heads/feature'' ''c1'') GotNothing
     \<in> set (snd (applySuggestions demoOctokit demoLib demoEnv demoConfig demoRepo demoPr
                [\<lparr>filePath = ''docs'', diff = ''-old\<newline>+new''\<rparr>,
                 \<lparr>filePath = ''a.txt'', diff = ''-old\<newline>+new''\<rparr>] 0))"
  by (simp add: demo_run)

text \<open>
  Claim C2, amended: when the content fetch of an edit throws, \<open>applySuggestions\<close>
  aborts the entire batch: the loop returns from inside and the run makes no blob, tree,
  commit or ref-update call. When the fetch returns an answer without content (a
  non-file), only that edit is skipped: the loop logs it and goes on with the rest of the
  batch and the change set built so far.
\<close>

theorem applySuggestions_fetch_failure:
  "(Call (ReposGetContent owner repoName path ref) (Threw err)
      \<in> set (snd (applySuggestions octokit lib env config repo pr suggestions w))
    \<longrightarrow> fst (applyLoop octokit lib repo (pr_head_sha pr) suggestions [] w) = None
        \<and> \<not> list_ex isCommitCall
              (snd (applySuggestions octokit lib env config repo pr suggestions w))) \<and>
   (repos_getContent octokit w (repo_owner repo) (repo_name repo) (filePath s) (Some headSha)
      = (Inr NoContentField, w1)
    \<longrightarrow> applyLoop octokit lib repo headSha (s # rest) changeSet w =
          (case applyLoop octokit lib repo headSha rest changeSet w1 of
             (r, w2, t) \<Rightarrow>
               (r, w2,
                Call (ReposGetContent (repo_owner repo) (repo_name repo) (filePath s)
                        (Some headSha)) (GotContent NoContentField)
                # Log (CouldNotGetContent (filePath s)) # t)))"
proof (intro conjI impI)
  assume a: "Call (ReposGetContent owner repoName path ref) (Threw err)
      \<in> set (snd (applySuggestions octokit lib env config repo pr suggestions w))"
  have s: "fst (applyLoop octokit lib repo (pr_head_sha pr) suggestions [] w) = None \<and>
         \<not> list_ex isCommitCall
             (snd (applySuggestions octokit lib env config repo pr suggestions w))"
    using a
  proof (rule applySuggestions_loop_event_aborts)
    fix cs w1 t1
    assume "applyLoop octokit lib repo (pr_head_sha pr) suggestions [] w = (Some cs, w1, t1)"
    then show "Call (ReposGetContent owner repoName path ref) (Threw err) \<notin> set t1"
      by (rule applyLoop_Some [THEN conjunct2])
  qed simp_all
  from s show "fst (applyLoop octokit lib repo (pr_head_sha pr) suggestions [] w) = None" ..
  from s show "\<not> list_ex isCommitCall
             (snd (applySuggestions octokit lib env config repo pr suggestions w))" ..
next
  assume "repos_getContent octokit w (repo_owner repo) (repo_name repo) (filePath s)
      (Some headSha) = (Inr NoContentField, w1)"
  then show "applyLoop octokit lib repo headSha (s # rest) changeSet w =
          (case applyLoop octokit lib repo headSha rest changeSet w1 of
             (r, w2, t) \<Rightarrow>
               (r, w2,
                Call (ReposGetContent (repo_owner repo) (repo_name repo) (filePath s)
                        (Some headSha)) (GotContent NoContentField)
                # Log (CouldNotGetContent (filePath s)) # t))"
    by simp
qed

theorem applySuggestions_fetch_failure_witness:
  "Call (ReposGetContent ''acme'' ''app'' ''gone.txt'' (Some ''h0'')) (Threw (RequestError 404))
     \<in> set (snd (applySuggestions demoOctokit demoLib demoEnv demoConfig demoRepo demoPr
                [\<lparr>filePath = ''a.txt'', diff = ''-old\<newline>+new''\<rparr>,
                 \<lparr>filePath = ''gone.txt'', diff = ''-old\<newline>+new''\<rparr>] 0)) \<and>
   fst (applyLoop demoOctokit demoLib demoRepo (pr_head_sha demoPr)
          [\<lparr>filePath = ''a.txt'', diff = ''-old\<newline>+new''\<rparr>,
           \<lparr>filePath = ''gone.txt'', diff = ''-old\<newline>+new''\<rparr>] [] 0) = None \<and>
   \<not> list_ex isCommitCall
       (snd (applySuggestions demoOctokit demoLib demoEnv demoConfig demoRepo demoPr
               [\<lparr>filePath = ''a.txt'', diff = ''-old\<newline>+new''\<rparr>,
                \<lparr>filePath = ''gone.txt'', diff = ''-old\<newline>+new''\<rparr>] 0)) \<and>
   repos_getContent demoOctokit 0 (repo_owner demoRepo) (repo_name demoRepo)
     (filePath \<lparr>filePath = ''docs'', diff = ''-old\<newline>+new''\<rparr>) (Some ''h0'')
     = (Inr NoContentField, 0) \<and>
   applyLoop demoOctokit demoLib demoRepo ''h0''
     [\<lparr>filePath = ''docs'', diff = ''-old\<newline>+new''\<rparr>] [(''a.txt'', ''new'')] 0
     = (Some [(''a.txt'', ''new'')], 0,
        [Call (ReposGetContent ''acme'' ''app'' ''docs'' (Some ''h0'')) (GotContent NoContentField),
         Log (CouldNotGetContent ''docs'')])"
proof -
  let ?a = "\<lparr>filePath = ''a.txt'', diff = ''-old\<newline>+new''\<rparr>"
  let ?g = "\<lparr>filePath = ''gone.txt'', diff = ''-old\<newline>+new''\<rparr>"
  let ?d = "\<lparr>filePath = ''docs'', diff = ''-old\<newline>+new''\<rparr>"
  let ?run = "snd (applySuggestions demoOctokit demoLib demoEnv demoConfig demoRepo demoPr
                [?a, ?g] 0)"
  have 1: "Call (ReposGetContent ''acme'' ''app'' ''gone.txt'' (Some ''h0''))
      (Threw (RequestError 404)) \<in> set ?run"
    by (simp add: demo_run)
  have 2: "repos_getContent demoOctokit 0 (repo_owner demoRepo) (repo_name demoRepo)
     (filePath ?d) (Some ''h0'') = (Inr NoContentField, 0)"
    by (simp add: demo_calls)
  note T = applySuggestions_fetch_failure
    [of "''acme''" "''app''" "''gone.txt''" "Some ''h0''" "RequestError 404"
      demoOctokit demoLib demoEnv demoConfig demoRepo demoPr "[?a, ?g]" 0 ?d "''h0''" 0 "[]"
      "[(''a.txt'', ''new'')]"]
  from T 1 have 3: "fst (applyLoop demoOctokit demoLib demoRepo (pr_head_sha demoPr)
      [?a, ?g] [] 0) = None" "\<not> list_ex isCommitCall ?run"
    by blast+
  from T 2 have 4: "applyLoop demoOctokit demoLib demoRepo ''h0'' [?d] [(''a.txt'', ''new'')] 0
     = (Some [(''a.txt'', ''new'')], 0,
        [Call (ReposGetContent ''acme'' ''app'' ''docs'' (Some ''h0'')) (GotContent NoContentField),
         Log (CouldNotGetContent ''docs'')])"
    by (simp add: demoRepo_def)
  from 1 2 3 4 show ?thesis by blast
qed

subsection \<open>The parent of the commit (claim C5)\<close>



section \<open>Properties of the policy-file reconciliation\<close>

text \<open>
  The text of the baseline object, and that no other object is written so: the key is
  read back from between the quotes, the value and the end of the object from what
  follows.
\<close>

lemma baseline_text:
  "jsonStringify [(''automatic_pr_processing'', JBool False)]
     = ''{\<newline>  '' @ [CHR 0x22] @ ''automatic_pr_processing'' @ [CHR 0x22] @ '': false\<newline>}''"
  by (simp add: jsonStringify_def quoteJson_def escapeJsonChar_def)

lemma escapeJsonChar_cases:
  "(escapeJsonChar c = [c] \<and> c \<noteq> CHR 0x22 \<and> c \<noteq> CHR 0x5C)
   \<or> (\<exists>t. escapeJsonChar c = CHR 0x5C # t)"
  by (simp add: escapeJsonChar_def)

lemma escaped_key:
  assumes "concat (map escapeJsonChar k) @ CHR 0x22 # r = n @ CHR 0x22 # r'"
    and "\<forall>x\<in>set n. x \<noteq> CHR 0x22 \<and> x \<noteq> CHR 0x5C"
  shows "k = n \<and> r = r'"
  using assms
proof (induction n arbitrary: k)
  case Nil
  show ?case
  proof (cases k)
    case Nil
    with Nil.prems show ?thesis by simp
  next
    case (Cons c k')
    with Nil.prems escapeJsonChar_cases [of c] show ?thesis by auto
  qed
next
  case (Cons x n)
  show ?case
  proof (cases k)
    case Nil
    with Cons.prems show ?thesis by simp
  next
    case c: (Cons c k')
    from Cons.prems(2) have x: "x \<noteq> CHR 0x22" "x \<noteq> CHR 0x5C" by simp_all
    from escapeJsonChar_cases [of c] Cons.prems(1) c x
    have e: "escapeJsonChar c = [c]" "c = x" by auto
    with Cons.prems(1) c
    have "concat (map escapeJsonChar k') @ CHR 0x22 # r = n @ CHR 0x22 # r'" by simp
    with Cons.IH [of k'] Cons.prems(2) have "k' = n \<and> r = r'" by simp
    with c e show ?thesis by simp
  qed
qed

lemma jsonStringify_baseline_only:
  assumes "jsonStringify props = jsonStringify [(''automatic_pr_processing'', JBool False)]"
  shows "props = [(''automatic_pr_processing'', JBool False)]"
proof (cases props)
  case Nil
  with assms show ?thesis by (simp add: jsonStringify_def)
next
  case (Cons kv rest)
  obtain k v where kv: "kv = (k, v)" by (cases kv) auto
  define after where "after = (if rest = [] then ''\<newline>}''
    else '',\<newline>'' @ joinWith '',\<newline>''
         (map (\<lambda>(k, v). ''  '' @ quoteJson k @ '': '' @ stringifyValue v) rest) @ ''\<newline>}'')"
  have s: "jsonStringify props = ''{\<newline>  '' @ quoteJson k @ '': '' @ stringifyValue v @ after"
    unfolding after_def Cons kv by (cases rest) (simp_all add: jsonStringify_def)
  from assms [unfolded s baseline_text]
  have "concat (map escapeJsonChar k) @ CHR 0x22 # ('': '' @ stringifyValue v @ after)
      = ''automatic_pr_processing'' @ CHR 0x22 # '': false\<newline>}''"
    by (simp add: quoteJson_def)
  then have k: "k = ''automatic_pr_processing''"
    and r: "'': '' @ stringifyValue v @ after = '': false\<newline>}''"
    using escaped_key [of k "'': '' @ stringifyValue v @ after" "''automatic_pr_processing''"
        "'': false\<newline>}''"]
    by simp_all
  from r have r': "stringifyValue v @ after = ''false\<newline>}''" by simp
  have v: "v = JBool False \<and> after = ''\<newline>}''"
    using r' by (cases v) (auto simp: quoteJson_def split: if_splits)
  then have "rest = []" unfolding after_def by (auto split: if_splits)
  with Cons kv k v show ?thesis by simp
qed

text \<open>
  Claim C9: \<open>ensureConfigFile\<close> calls the file creation exactly when the read of the
  policy file throws with status 404. It then makes that one call, at the world the read
  left, for the policy path, with the encoded JSON text of the object whose only property
  is \<open>automatic_pr_processing\<close>, set to false; the run ends in the world the creation
  left, with the message of success or, when the creation threw, of its failure. On any
  other read failure it logs and returns after the read, and when the read succeeds it
  logs that the file exists: in both cases with no creation call. The text written is
  the literal shown, and the baseline object is the only one with that text.
\<close>

theorem ensureConfigFile_creates_on_404_only:
  fixes octokit :: "'w Octokit" and lib owner repo env w
  defines "getting \<equiv> repos_getContent octokit w owner repo ''.github/worker-settings.json'' None"
    and "content \<equiv> btoa lib (jsonStringify [(''automatic_pr_processing'', JBool False)])"
    and "email \<equiv> (case BOT_EMAIL env of
                      None \<Rightarrow> ''bot@example.com''
                    | Some e \<Rightarrow> if e = [] then ''bot@example.com'' else e)"
  defines "creating \<equiv> repos_createOrUpdateFileContents octokit (snd getting) owner repo
        ''.github/worker-settings.json'' ''feat: Add worker configuration file'' content
        ''GH-Worker-Bot'' email"
    and "run \<equiv> ensureConfigFile octokit lib owner repo env w"
  shows "(list_ex isCreateFile (snd run)
            \<longleftrightarrow> (\<exists>error. fst getting = Inl error \<and> status error = Some 404)) \<and>
         (\<forall>error. fst getting = Inl error \<and> status error = Some 404 \<longrightarrow>
            run = (snd creating,
                   [Call (ReposGetContent owner repo ''.github/worker-settings.json'' None)
                      (Threw error),
                    Log ConfigNotFoundCreating,
                    Call (ReposCreateOrUpdateFileContents owner repo
                            ''.github/worker-settings.json''
                            ''feat: Add worker configuration file'' content
                            ''GH-Worker-Bot'' email)
                      (case fst creating of Inl err \<Rightarrow> Threw err | Inr u \<Rightarrow> GotNothing),
                    Log (case fst creating of
                           Inl err \<Rightarrow> ErrorCreatingConfig err
                         | Inr u \<Rightarrow> ConfigCreated)])) \<and>
         (\<forall>error. fst getting = Inl error \<and> status error \<noteq> Some 404 \<longrightarrow>
            run = (snd getting,
                   [Call (ReposGetContent owner repo ''.github/worker-settings.json'' None)
                      (Threw error),
                    Log (ErrorCheckingConfig error)])) \<and>
         (\<forall>found. fst getting = Inr found \<longrightarrow>
            run = (snd getting,
                   [Call (ReposGetContent owner repo ''.github/worker-settings.json'' None)
                      (GotContent found),
                    Log ConfigExists])) \<and>
         jsonStringify [(''automatic_pr_processing'', JBool False)]
           = ''{\<newline>  '' @ [CHR 0x22] @ ''automatic_pr_processing'' @ [CHR 0x22]
             @ '': false\<newline>}'' \<and>
         (\<forall>props. jsonStringify props = jsonStringify [(''automatic_pr_processing'', JBool False)]
            \<longrightarrow> props = [(''automatic_pr_processing'', JBool False)])"
proof -
  obtain x w1 where g: "getting = (x, w1)" by (cases getting) auto
  obtain y w2 where c: "creating = (y, w2)" by (cases creating) auto
  have e: "email = orElse (BOT_EMAIL env) ''bot@example.com''"
    unfolding email_def by (cases "BOT_EMAIL env") simp_all
  note unfold = ensureConfigFile_def configPath_def defaultConfig_def Let_def
  have cases3:
    "(list_ex isCreateFile (snd run)
        \<longleftrightarrow> (\<exists>error. fst getting = Inl error \<and> status error = Some 404)) \<and>
     (\<forall>error. fst getting = Inl error \<and> status error = Some 404 \<longrightarrow>
        run = (snd creating,
               [Call (ReposGetContent owner repo ''.github/worker-settings.json'' None)
                  (Threw error),
                Log ConfigNotFoundCreating,
                Call (ReposCreateOrUpdateFileContents owner repo
                        ''.github/worker-settings.json''
                        ''feat: Add worker configuration file'' content
                        ''GH-Worker-Bot'' email)
                  (case fst creating of Inl err \<Rightarrow> Threw err | Inr u \<Rightarrow> GotNothing),
                Log (case fst creating of
                       Inl err \<Rightarrow> ErrorCreatingConfig err
                     | Inr u \<Rightarrow> ConfigCreated)])) \<and>
     (\<forall>error. fst getting = Inl error \<and> status error \<noteq> Some 404 \<longrightarrow>
        run = (snd getting,
               [Call (ReposGetContent owner repo ''.github/worker-settings.json'' None)
                  (Threw error),
                Log (ErrorCheckingConfig error)])) \<and>
     (\<forall>found. fst getting = Inr found \<longrightarrow>
        run = (snd getting,
               [Call (ReposGetContent owner repo ''.github/worker-settings.json'' None)
                  (GotContent found),
                Log ConfigExists]))"
  proof (cases x)
    case (Inr found)
    with g show ?thesis
      unfolding run_def by (simp add: unfold getting_def [symmetric])
  next
    case (Inl error)
    show ?thesis
    proof (cases "status error = Some 404")
      case False
      with g Inl show ?thesis
        unfolding run_def by (simp add: unfold getting_def [symmetric])
    next
      case True
      from c g have c': "repos_createOrUpdateFileContents octokit w1 owner repo
          ''.github/worker-settings.json'' ''feat: Add worker configuration file'' content
          ''GH-Worker-Bot'' (orElse (BOT_EMAIL env) ''bot@example.com'') = (y, w2)"
        by (simp add: creating_def e)
      from g Inl True c c' show ?thesis
        unfolding run_def
        by (cases y) (simp_all add: unfold e getting_def [symmetric] content_def [symmetric])
    qed
  qed
  from cases3 baseline_text jsonStringify_baseline_only show ?thesis by blast
qed

theorem ensureConfigFile_creates_on_404_only_witness:
  "fst (repos_getContent demoOctokit 0 ''acme'' ''fresh'' ''.github/worker-settings.json'' None)
     = Inl (RequestError 404) \<and>
   status (RequestError 404) = Some 404 \<and>
   list_ex isCreateFile (snd (ensureConfigFile demoOctokit demoLib ''acme'' ''fresh'' demoEnv 0)) \<and>
   ensureConfigFile demoOctokit demoLib ''acme'' ''fresh''
       (demoEnv\<lparr>BOT_EMAIL := Some ''ci@acme.dev''\<rparr>) 0 =
     (0, [Call (ReposGetContent ''acme'' ''fresh'' ''.github/worker-settings.json'' None)
            (Threw (RequestError 404)),
          Log ConfigNotFoundCreating,
          Call (ReposCreateOrUpdateFileContents ''acme'' ''fresh''
                  ''.github/worker-settings.json'' ''feat: Add worker configuration file''
                  (''{\<newline>  '' @ [CHR 0x22] @ ''automatic_pr_processing'' @ [CHR 0x22]
                   @ '': false\<newline>}'')
                  ''GH-Worker-Bot'' ''ci@acme.dev'') GotNothing,
          Log ConfigCreated]) \<and>
   fst (repos_getContent demoOctokit 0 ''acme'' ''down'' ''.github/worker-settings.json'' None)
     = Inl (RequestError 500) \<and>
   status (RequestError 500) \<noteq> Some 404 \<and>
   \<not> list_ex isCreateFile (snd (ensureConfigFile demoOctokit demoLib ''acme'' ''down'' demoEnv 0)) \<and>
   ensureConfigFile demoOctokit demoLib ''acme'' ''down'' demoEnv 0 =
     (0, [Call (ReposGetContent ''acme'' ''down'' ''.github/worker-settings.json'' None)
            (Threw (RequestError 500)),
          Log (ErrorCheckingConfig (RequestError 500))]) \<and>
   fst (repos_getContent demoOctokit 0 ''acme'' ''app'' ''.github/worker-settings.json'' None)
     = Inr (FileContent ''old'') \<and>
   ensureConfigFile demoOctokit demoLib ''acme'' ''app'' demoEnv 0 =
     (0, [Call (ReposGetContent ''acme'' ''app'' ''.github/worker-settings.json'' None)
            (GotContent (FileContent ''old'')),
          Log ConfigExists])"
proof -
  let ?path = "''.github/worker-settings.json''"
  let ?env = "demoEnv\<lparr>BOT_EMAIL := Some ''ci@acme.dev''\<rparr>"
  have 1: "fst (repos_getContent demoOctokit 0 ''acme'' ''fresh'' ?path None)
      = Inl (RequestError 404)"
    by (simp add: demo_calls configPath_def)
  have 2: "fst (repos_getContent demoOctokit 0 ''acme'' ''down'' ?path None)
      = Inl (RequestError 500)"
    by (simp add: demo_calls configPath_def)
  have 3: "fst (repos_getContent demoOctokit 0 ''acme'' ''app'' ?path None)
      = Inr (FileContent ''old'')"
    by (simp add: demo_calls configPath_def)
  have s: "snd (repos_getContent demoOctokit 0 owner repo ?path None) = 0" for owner repo
    by (simp add: demo_calls)
  have m: "BOT_EMAIL ?env = Some ''ci@acme.dev''" by simp
  note F = ensureConfigFile_creates_on_404_only [where octokit = demoOctokit and lib = demoLib
      and owner = "''acme''" and repo = "''fresh''" and env = "demoEnv" and w = 0]
  note G = ensureConfigFile_creates_on_404_only [where octokit = demoOctokit and lib = demoLib
      and owner = "''acme''" and repo = "''fresh''" and env = "?env" and w = 0]
  note D = ensureConfigFile_creates_on_404_only [where octokit = demoOctokit and lib = demoLib
      and owner = "''acme''" and repo = "''down''" and env = "demoEnv" and w = 0]
  note A = ensureConfigFile_creates_on_404_only [where octokit = demoOctokit and lib = demoLib
      and owner = "''acme''" and repo = "''app''" and env = "demoEnv" and w = 0]
  from F 1 have 4: "list_ex isCreateFile
      (snd (ensureConfigFile demoOctokit demoLib ''acme'' ''fresh'' demoEnv 0))"
    by simp
  from G 1 have 5: "ensureConfigFile demoOctokit demoLib ''acme'' ''fresh'' ?env 0 =
     (0, [Call (ReposGetContent ''acme'' ''fresh'' ?path None) (Threw (RequestError 404)),
          Log ConfigNotFoundCreating,
          Call (ReposCreateOrUpdateFileContents ''acme'' ''fresh'' ?path
                  ''feat: Add worker configuration file''
                  (''{\<newline>  '' @ [CHR 0x22] @ ''automatic_pr_processing'' @ [CHR 0x22]
                   @ '': false\<newline>}'')
                  ''GH-Worker-Bot'' ''ci@acme.dev'') GotNothing,
          Log ConfigCreated])"
    by (simp add: demo_calls m del: Env.simps)
  from D 2 have 6: "\<not> list_ex isCreateFile
      (snd (ensureConfigFile demoOctokit demoLib ''acme'' ''down'' demoEnv 0))"
    by simp
  from D 2 s have 7: "ensureConfigFile demoOctokit demoLib ''acme'' ''down'' demoEnv 0 =
     (0, [Call (ReposGetContent ''acme'' ''down'' ?path None) (Threw (RequestError 500)),
          Log (ErrorCheckingConfig (RequestError 500))])"
    by simp
  from A 3 s have 8: "ensureConfigFile demoOctokit demoLib ''acme'' ''app'' demoEnv 0 =
     (0, [Call (ReposGetContent ''acme'' ''app'' ?path None) (GotContent (FileContent ''old'')),
          Log ConfigExists])"
    by simp
  from 1 2 3 4 5 6 7 8 show ?thesis by simp
qed

section \<open>Properties of the signature verifier\<close>

lemma split_nonempty: "split sep s \<noteq> []"
  by (induction s) (auto split: list.splits)

lemma split_no_sep: "sep \<notin> set s \<Longrightarrow> split sep s = [s]"
  by (induction s) auto

lemma split_at_sep: "sep \<notin> set p \<Longrightarrow> split sep (p @ sep # r) = p # split sep r"
  by (induction p) auto

lemma split_one_iff: "length (split sep s) = 1 \<longleftrightarrow> sep \<notin> set s"
proof (induction s)
  case Nil
  then show ?case by simp
next
  case (Cons c s)
  then show ?case
    using split_nonempty [of sep s] by (cases "split sep s") auto
qed

lemma element_split_None: "element (split sep s) 1 = None \<longleftrightarrow> sep \<notin> set s"
proof -
  have "element (split sep s) 1 = None \<longleftrightarrow> length (split sep s) = 1"
    using split_nonempty [of sep s] by (cases "split sep s") (auto simp: element_def)
  then show ?thesis using split_one_iff [of sep s] by simp
qed

lemma hexDigit_facts:
  "isHexDigit c \<Longrightarrow>
   \<not> isWhiteSpace c \<and> \<not> isLineTerminator c \<and> c \<noteq> CHR ''+'' \<and> c \<noteq> CHR ''-''
   \<and> c \<noteq> CHR ''x'' \<and> c \<noteq> CHR ''X'' \<and> c \<noteq> CHR ''='' \<and> hexValue c < 16
   \<and> CHR ''+'' \<noteq> c \<and> CHR ''-'' \<noteq> c \<and> CHR ''x'' \<noteq> c \<and> CHR ''X'' \<noteq> c
   \<and> CHR ''='' \<noteq> c"
  by (auto simp: isHexDigit_def isWhiteSpace_def isLineTerminator_def hexValue_def Let_def)

lemma parseInt16_pair:
  assumes "isHexDigit a" "isHexDigit b"
  shows "parseInt16 [a, b] = Some (int (16 * hexValue a + hexValue b))"
  using hexDigit_facts [OF assms(1)] hexDigit_facts [OF assms(2)] assms
  by (simp add: parseInt16_def Let_def)

lemma toUint8_pair:
  assumes "isHexDigit a" "isHexDigit b"
  shows "toUint8 (parseInt16 [a, b]) = 16 * hexValue a + hexValue b"
proof -
  from hexDigit_facts [OF assms(1)] hexDigit_facts [OF assms(2)]
  have "16 * hexValue a + hexValue b < 256" by simp
  then show ?thesis by (simp add: parseInt16_pair [OF assms] nat_mod_distrib)
qed

lemma matchPairs_hex:
  "\<forall>c\<in>set h. isHexDigit c \<Longrightarrow> even (length h) \<Longrightarrow>
   map (\<lambda>p. toUint8 (parseInt16 p)) (matchPairs h) = hexBytes h"
proof (induction h rule: hexBytes.induct)
  case (1 a b rest)
  then show ?case using hexDigit_facts [of a] hexDigit_facts [of b]
    by (simp add: toUint8_pair)
qed simp_all

lemma matchPairs_hex_nonempty:
  "\<forall>c\<in>set h. isHexDigit c \<Longrightarrow> even (length h) \<Longrightarrow> h \<noteq> [] \<Longrightarrow> matchPairs h \<noteq> []"
  using hexDigit_facts by (cases h rule: hexBytes.cases) auto

lemma element_split_digest:
  "CHR ''='' \<notin> set a \<Longrightarrow> CHR ''='' \<notin> set d \<Longrightarrow>
   element (split CHR ''='' (a @ ''='' @ d)) 1 = Some d"
  by (simp add: split_at_sep split_no_sep element_def)

lemma element_split_digest_more:
  "CHR ''='' \<notin> set a \<Longrightarrow> CHR ''='' \<notin> set d \<Longrightarrow>
   element (split CHR ''='' (a @ ''='' @ d @ ''='' @ r)) 1 = Some d"
  using split_nonempty [of "CHR ''=''" r]
  by (cases "split CHR ''='' r") (simp_all add: split_at_sep element_def)

lemma matchPairs_hex_append:
  "\<forall>c\<in>set h. isHexDigit c \<Longrightarrow> even (length h) \<Longrightarrow>
   map (\<lambda>p. toUint8 (parseInt16 p)) (matchPairs (h @ r))
     = hexBytes h @ map (\<lambda>p. toUint8 (parseInt16 p)) (matchPairs r)"
proof (induction h rule: hexBytes.induct)
  case (1 a b rest)
  then show ?case using hexDigit_facts [of a] hexDigit_facts [of b]
    by (simp add: toUint8_pair)
qed simp_all

lemma hexBytes_nonempty:
  "h \<noteq> [] \<Longrightarrow> even (length h) \<Longrightarrow> hexBytes h \<noteq> []"
  by (cases h rule: hexBytes.cases) auto

lemma matchPairs_two:
  "2 \<le> length d \<Longrightarrow> \<not> list_ex isLineTerminator d \<Longrightarrow> matchPairs d \<noteq> []"
  by (cases d rule: matchPairs.cases) auto

lemma parseInt16_not_a_number:
  "\<not> isHexDigit a \<Longrightarrow> \<not> isWhiteSpace a \<Longrightarrow> a \<noteq> CHR ''+'' \<Longrightarrow> a \<noteq> CHR ''-'' \<Longrightarrow>
   parseInt16 [a, b] = None"
proof -
  assume a: "\<not> isHexDigit a" "\<not> isWhiteSpace a" "a \<noteq> CHR ''+''" "a \<noteq> CHR ''-''"
  have z: "isHexDigit CHR ''0''" by (simp add: isHexDigit_def)
  with a(1) have "a \<noteq> CHR ''0''" by auto
  with a show ?thesis by (auto simp: parseInt16_def Let_def)
qed

lemma verifySignature_bytes:
  assumes "importKey crypto secret = Inr key"
    and "element (split CHR ''='' signature) 1 = Some d"
    and "map (\<lambda>p. toUint8 (parseInt16 p)) (matchPairs d) = bytes" and "bytes \<noteq> []"
  shows "verifySignature crypto secret signature payload
           = Inr (bytes = hmacSha256 crypto key payload)"
proof -
  from assms(3,4) obtain h hs where hs: "matchPairs d = h # hs"
    by (cases "matchPairs d") auto
  with assms(3) have "map (\<lambda>p. toUint8 (parseInt16 p)) (h # hs) = bytes" by simp
  with assms(1,2) hs show ?thesis
    by (simp add: verifySignature_def subtleVerify_def del: list.map)
qed

lemma lineTerminator_whiteSpace: "isLineTerminator c \<Longrightarrow> isWhiteSpace c"
  by (auto simp: isLineTerminator_def isWhiteSpace_def)

text \<open>
  Claim C3 as stated: on a malformed signature (wrong prefix, no \<open>=\<close>, a digest of odd
  length or with characters that are no hexadecimal digits) \<open>verifySignature\<close> returns
  false and does not throw. The source does not look at the shape of the signature: with
  no \<open>=\<close> in it, or nothing after the \<open>=\<close>, it throws a \<open>TypeError\<close>; the prefix is
  never compared, a last odd character is dropped, and a pair that is no hexadecimal number
  counts as the byte 0, so a signature with a wrong prefix, an odd length or such a pair
  verifies when the bytes read from it are the keyed hash.
\<close>

theorem verifySignature_malformed_counterexample:
  "verifySignature demoCrypto ''secret'' ''sha256'' ''payload'' = Inl TypeError \<and>
   verifySignature demoCrypto ''secret'' ''sha256='' ''payload'' = Inl TypeError \<and>
   verifySignature demoCrypto ''secret'' ''md5=abcd'' ''payload'' = Inr True \<and>
   verifySignature demoCrypto ''secret'' ''sha256=abcdE'' ''payload'' = Inr True \<and>
   verifySignature demoCrypto ''secret'' ''sha256=abzz'' ''zero'' = Inr True \<and>
   hmacSha256 demoCrypto ''secret'' ''payload'' = [171, 205] \<and>
   hmacSha256 demoCrypto ''secret'' ''zero'' = [171, 0]"
  by (simp add: verifySignature_def demoCrypto_def element_def subtleVerify_def parseInt16_def
      isWhiteSpace_def isHexDigit_def hexValue_def isLineTerminator_def Let_def)

text \<open>
  Claim C3, amended: with a key that imports and a signature \<open>algorithm=digest\<close>, whatever
  the algorithm name, \<open>verifySignature\<close> answers as follows. For a digest that is a
  non-empty string of hexadecimal digits of even length it returns true exactly when the
  bytes of the digest are the HMAC-SHA-256 of the payload under the secret, and it returns
  the same when one more character follows such a digest: a trailing odd character is
  dropped. Where two characters stand in the place of a byte and the first of them is no
  hexadecimal digit, white space or sign, the byte read is 0, and the answer is true
  exactly when the bytes read so are the keyed hash. For every digest of at least two
  characters with no line terminator and no \<open>=\<close> in it the answer is true or false. So a
  signature with a wrong prefix, an odd length or a pair that is no hexadecimal number is
  not always answered with false. Nothing is said of a signature with no \<open>=\<close> or with
  fewer than two characters after it.
\<close>

theorem verifySignature_wellformed:
  assumes "importKey crypto secret = Inr key" and "CHR ''='' \<notin> set algorithm"
  shows "(hexDigest \<noteq> [] \<and> even (length hexDigest) \<and> (\<forall>c\<in>set hexDigest. isHexDigit c)
          \<longrightarrow> verifySignature crypto secret (algorithm @ ''='' @ hexDigest) payload
                = Inr (hexBytes hexDigest = hmacSha256 crypto key payload)
              \<and> verifySignature crypto secret (algorithm @ ''='' @ hexDigest @ [extra]) payload
                = Inr (hexBytes hexDigest = hmacSha256 crypto key payload)) \<and>
         (even (length before) \<and> (\<forall>c\<in>set before. isHexDigit c)
            \<and> even (length behind) \<and> (\<forall>c\<in>set behind. isHexDigit c)
            \<and> \<not> isHexDigit a \<and> \<not> isWhiteSpace a
            \<and> a \<noteq> CHR ''+'' \<and> a \<noteq> CHR ''-'' \<and> a \<noteq> CHR ''=''
            \<and> \<not> isLineTerminator b \<and> b \<noteq> CHR ''=''
          \<longrightarrow> verifySignature crypto secret (algorithm @ ''='' @ before @ [a, b] @ behind)
                  payload
                = Inr (hexBytes before @ 0 # hexBytes behind = hmacSha256 crypto key payload)) \<and>
         (2 \<le> length digest \<and> CHR ''='' \<notin> set digest \<and> \<not> list_ex isLineTerminator digest
          \<longrightarrow> (\<exists>answer. verifySignature crypto secret (algorithm @ ''='' @ digest) payload
                          = Inr answer))"
proof (intro conjI impI)
  assume a: "hexDigest \<noteq> [] \<and> even (length hexDigest) \<and> (\<forall>c\<in>set hexDigest. isHexDigit c)"
  then have n: "CHR ''='' \<notin> set hexDigest" using hexDigit_facts by blast
  from a have ne: "hexBytes hexDigest \<noteq> []" by (simp add: hexBytes_nonempty)
  from a have b: "map (\<lambda>p. toUint8 (parseInt16 p)) (matchPairs hexDigest) = hexBytes hexDigest"
    by (simp add: matchPairs_hex)
  show "verifySignature crypto secret (algorithm @ ''='' @ hexDigest) payload
      = Inr (hexBytes hexDigest = hmacSha256 crypto key payload)"
    by (rule verifySignature_bytes [OF assms(1) element_split_digest [OF assms(2) n] b ne])
  from a have c: "map (\<lambda>p. toUint8 (parseInt16 p)) (matchPairs (hexDigest @ [extra]))
      = hexBytes hexDigest"
    by (simp add: matchPairs_hex_append)
  show "verifySignature crypto secret (algorithm @ ''='' @ hexDigest @ [extra]) payload
      = Inr (hexBytes hexDigest = hmacSha256 crypto key payload)"
  proof (cases "extra = CHR ''=''")
    case True
    have "element (split CHR ''='' (algorithm @ ''='' @ hexDigest @ ''='' @ [])) 1
        = Some hexDigest"
      by (rule element_split_digest_more [OF assms(2) n])
    with True have e: "element (split CHR ''='' (algorithm @ ''='' @ hexDigest @ [extra])) 1
        = Some hexDigest"
      by simp
    show ?thesis by (rule verifySignature_bytes [OF assms(1) e b ne])
  next
    case False
    with n have "CHR ''='' \<notin> set (hexDigest @ [extra])" by auto
    from verifySignature_bytes [OF assms(1) element_split_digest [OF assms(2) this] c ne]
    show ?thesis .
  qed
next
  assume a: "even (length before) \<and> (\<forall>c\<in>set before. isHexDigit c)
            \<and> even (length behind) \<and> (\<forall>c\<in>set behind. isHexDigit c)
            \<and> \<not> isHexDigit a \<and> \<not> isWhiteSpace a
            \<and> a \<noteq> CHR ''+'' \<and> a \<noteq> CHR ''-'' \<and> a \<noteq> CHR ''=''
            \<and> \<not> isLineTerminator b \<and> b \<noteq> CHR ''=''"
  then have "CHR ''='' \<notin> set before" "CHR ''='' \<notin> set behind"
    using hexDigit_facts by blast+
  with a have n: "CHR ''='' \<notin> set (before @ [a, b] @ behind)" by auto
  from a have t: "\<not> isLineTerminator a" using lineTerminator_whiteSpace by blast
  from a have z: "parseInt16 [a, b] = None" by (simp add: parseInt16_not_a_number)
  from a have "map (\<lambda>p. toUint8 (parseInt16 p)) (matchPairs (before @ [a, b] @ behind))
      = hexBytes before @ map (\<lambda>p. toUint8 (parseInt16 p)) (matchPairs ([a, b] @ behind))"
    by (simp add: matchPairs_hex_append)
  also from a t have "map (\<lambda>p. toUint8 (parseInt16 p)) (matchPairs ([a, b] @ behind))
      = toUint8 (parseInt16 [a, b]) # hexBytes behind"
    by (simp add: matchPairs_hex)
  finally have m: "map (\<lambda>p. toUint8 (parseInt16 p)) (matchPairs (before @ [a, b] @ behind))
      = hexBytes before @ 0 # hexBytes behind"
    using z by simp
  have "verifySignature crypto secret (algorithm @ ''='' @ (before @ [a, b] @ behind)) payload
      = Inr (hexBytes before @ 0 # hexBytes behind = hmacSha256 crypto key payload)"
    by (rule verifySignature_bytes [OF assms(1) element_split_digest [OF assms(2) n] m]) simp
  then show "verifySignature crypto secret (algorithm @ ''='' @ before @ [a, b] @ behind) payload
      = Inr (hexBytes before @ 0 # hexBytes behind = hmacSha256 crypto key payload)"
    by simp
next
  assume a: "2 \<le> length digest \<and> CHR ''='' \<notin> set digest \<and> \<not> list_ex isLineTerminator digest"
  then have m: "matchPairs digest \<noteq> []" by (simp add: matchPairs_two)
  from a have n: "CHR ''='' \<notin> set digest" by simp
  from m have "map (\<lambda>p. toUint8 (parseInt16 p)) (matchPairs digest) \<noteq> []" by simp
  from verifySignature_bytes [OF assms(1) element_split_digest [OF assms(2) n] refl this]
  show "\<exists>answer. verifySignature crypto secret (algorithm @ ''='' @ digest) payload = Inr answer"
    by blast
qed

theorem verifySignature_wellformed_witness:
  "importKey demoCrypto ''secret'' = Inr ''secret'' \<and>
   CHR ''='' \<notin> set ''md5'' \<and>
   verifySignature demoCrypto ''secret'' ''md5=abCD'' ''payload'' = Inr True \<and>
   hexBytes ''abCD'' = hmacSha256 demoCrypto ''secret'' ''payload'' \<and>
   verifySignature demoCrypto ''secret'' ''md5=abCDe'' ''payload'' = Inr True \<and>
   verifySignature demoCrypto ''secret'' ''md5=abce'' ''payload'' = Inr False \<and>
   hexBytes ''abce'' \<noteq> hmacSha256 demoCrypto ''secret'' ''payload'' \<and>
   verifySignature demoCrypto ''secret'' ''md5=abzzCD'' ''zero2'' = Inr True \<and>
   hexBytes ''ab'' @ 0 # hexBytes ''CD'' = hmacSha256 demoCrypto ''secret'' ''zero2'' \<and>
   verifySignature demoCrypto ''secret'' ''md5=abzzCD'' ''payload'' = Inr False \<and>
   (\<exists>answer. verifySignature demoCrypto ''secret'' ''md5=no hex'' ''payload'' = Inr answer)"
proof -
  have k: "importKey demoCrypto ''secret'' = Inr ''secret''" by (simp add: demoCrypto_def)
  have e: "CHR ''='' \<notin> set ''md5''" by simp
  have h: "hmacSha256 demoCrypto ''secret'' ''payload'' = [171, 205]"
    "hmacSha256 demoCrypto ''secret'' ''zero2'' = [171, 0, 205]"
    by (simp_all add: demoCrypto_def)
  have 1: "hexBytes ''abCD'' = [171, 205]" by (simp add: hexValue_def)
  have 2: "hexBytes ''abce'' = [171, 206]" by (simp add: hexValue_def)
  have 3: "hexBytes ''ab'' = [171]" "hexBytes ''CD'' = [205]" by (simp_all add: hexValue_def)
  have d: "\<forall>c\<in>set ''abCD''. isHexDigit c" "\<forall>c\<in>set ''abce''. isHexDigit c"
    "\<forall>c\<in>set ''ab''. isHexDigit c" "\<forall>c\<in>set ''CD''. isHexDigit c"
    by (simp_all add: isHexDigit_def)
  have z: "\<not> isHexDigit CHR ''z''" "\<not> isWhiteSpace CHR ''z''" "\<not> isLineTerminator CHR ''z''"
    by (simp_all add: isHexDigit_def isWhiteSpace_def isLineTerminator_def)
  have t: "\<not> list_ex isLineTerminator ''no hex''" by (simp add: isLineTerminator_def)
  note T = verifySignature_wellformed [OF k e]
  from T [where hexDigest = "''abCD''" and payload = "''payload''" and extra = "CHR ''e''"] d(1) 1 h
  have 4: "verifySignature demoCrypto ''secret'' ''md5=abCD'' ''payload'' = Inr True"
    and 5: "verifySignature demoCrypto ''secret'' ''md5=abCDe'' ''payload'' = Inr True"
    by simp_all
  from T [where hexDigest = "''abce''" and payload = "''payload''"] d(2) 2 h
  have 6: "verifySignature demoCrypto ''secret'' ''md5=abce'' ''payload'' = Inr False"
    by simp
  from T [where before = "''ab''" and a = "CHR ''z''" and b = "CHR ''z''" and behind = "''CD''"
      and payload = "''zero2''"] d(3,4) z 3 h
  have 7: "verifySignature demoCrypto ''secret'' ''md5=abzzCD'' ''zero2'' = Inr True"
    by simp
  from T [where before = "''ab''" and a = "CHR ''z''" and b = "CHR ''z''" and behind = "''CD''"
      and payload = "''payload''"] d(3,4) z 3 h
  have 8: "verifySignature demoCrypto ''secret'' ''md5=abzzCD'' ''payload'' = Inr False"
    by simp
  from T [where digest = "''no hex''" and payload = "''payload''"] t
  have 9: "\<exists>answer. verifySignature demoCrypto ''secret'' ''md5=no hex'' ''payload'' = Inr answer"
    by simp
  from k e h 1 2 3 4 5 6 7 8 9 show ?thesis by simp
qed

end
